theory Spec2Isabelle
  imports Main "HOL-Library.Word"
begin

unbundle bit_operations_syntax

section \<open>JavaScript values\<close>

text \<open>
  The library passes untyped values around (\<^verbatim>\<open>Parameters = any\<close>). A value is a JSON value
  or \<^verbatim>\<open>undefined\<close>; an object keeps its properties in insertion order. Numbers are
  integers here: the code only stores them, compares them with zero for truthiness and
  counts retries. A text frame is represented by what \<^verbatim>\<open>JSON.parse\<close> makes of it:
  \<open>Some v\<close> for the decoded value, \<open>None\<close> when \<^verbatim>\<open>JSON.parse\<close> throws.
\<close>

datatype jsval =
    JUndefined
  | JNull
  | JBool bool
  | JNum int
  | JStr string
  | JArr "jsval list"
  | JObj "(string \<times> jsval) list"

text \<open>Truthiness, as \<^verbatim>\<open>if (v)\<close>, \<^verbatim>\<open>!v\<close> and \<^verbatim>\<open>a || b\<close> decide it.\<close>

fun truthy :: "jsval \<Rightarrow> bool" where
  "truthy JUndefined = False"
| "truthy JNull = False"
| "truthy (JBool b) = b"
| "truthy (JNum n) = (n \<noteq> 0)"
| "truthy (JStr s) = (s \<noteq> [])"
| "truthy (JArr xs) = True"
| "truthy (JObj kvs) = True"

text \<open>\<^verbatim>\<open>typeof v === 'object'\<close>: true of objects, arrays and \<^verbatim>\<open>null\<close>.\<close>

fun typeof_object :: "jsval \<Rightarrow> bool" where
  "typeof_object JNull = True"
| "typeof_object (JArr xs) = True"
| "typeof_object (JObj kvs) = True"
| "typeof_object v = False"

text \<open>
  The property read \<^verbatim>\<open>v.key\<close> for the keys the code reads (\<^verbatim>\<open>jsonrpc\<close>, \<^verbatim>\<open>method\<close>,
  \<^verbatim>\<open>id\<close>, \<^verbatim>\<open>params\<close>, \<^verbatim>\<open>result\<close>, \<^verbatim>\<open>error\<close>): an object gives its own property,
  every other value \<^verbatim>\<open>undefined\<close>. The code reads properties only of values that are
  neither \<^verbatim>\<open>null\<close> nor \<^verbatim>\<open>undefined\<close>.
\<close>

fun get_prop :: "jsval \<Rightarrow> string \<Rightarrow> jsval" where
  "get_prop (JObj kvs) key = (case map_of kvs key of None \<Rightarrow> JUndefined | Some v \<Rightarrow> v)"
| "get_prop v key = JUndefined"

text \<open>The assignment \<^verbatim>\<open>obj.key = v\<close>: an existing property keeps its place, a new one goes last.\<close>

fun assign :: "(string \<times> jsval) list \<Rightarrow> string \<Rightarrow> jsval \<Rightarrow> (string \<times> jsval) list" where
  "assign [] key v = [(key, v)]"
| "assign ((k, w) # kvs) key v = (if k = key then (k, v) # kvs else (k, w) # assign kvs key v)"

text \<open>\<^verbatim>\<open>a ?? null\<close>.\<close>

fun nullish_null :: "jsval \<Rightarrow> jsval" where
  "nullish_null JUndefined = JNull"
| "nullish_null v = v"

text \<open>\<^verbatim>\<open>makeArray = val => (Array.isArray(val) ? val : [val])\<close> (utils.ts).\<close>

fun makeArray :: "jsval \<Rightarrow> jsval list" where
  "makeArray (JArr xs) = xs"
| "makeArray v = [v]"

text \<open>
  \<^verbatim>\<open>asyncForEach\<close> (utils.ts) awaits the callback on each element in turn. The callback
  works on a state; when it fails (second component \<open>Some e\<close>) the loop ends there, as the
  rejected \<^verbatim>\<open>await\<close> does, and nothing after it runs. The index argument is left out: no
  callback of this repository reads it.
\<close>

fun asyncForEach :: "'a list \<Rightarrow> ('a \<Rightarrow> 's \<Rightarrow> 's \<times> 'e option) \<Rightarrow> 's \<Rightarrow> 's \<times> 'e option" where
  "asyncForEach [] cb s = (s, None)"
| "asyncForEach (x # xs) cb s =
     (case cb x s of
        (s', Some e) \<Rightarrow> (s', Some e)
      | (s', None) \<Rightarrow> asyncForEach xs cb s')"


section \<open>The handshake encoder (utils.ts, \<^verbatim>\<open>makeEncryptor\<close>)\<close>

text \<open>
  A JavaScript string is a sequence of UTF-16 code units; \<^verbatim>\<open>charCodeAt\<close> reads one as a
  number and \<^verbatim>\<open>String.fromCharCode\<close> keeps the low 16 bits of a number.
\<close>

type_synonym jsstring = "16 word list"

definition str :: "string \<Rightarrow> jsstring" where
  "str s = map (\<lambda>c. of_nat (of_char c)) s"

definition isLineTerminator :: "16 word \<Rightarrow> bool" where
  "isLineTerminator c = (unat c \<in> {10, 13, 8232, 8233})"

definition isWhiteSpace :: "16 word \<Rightarrow> bool" where
  "isWhiteSpace c = (isLineTerminator c \<or> unat c \<in> {9, 11, 12, 32, 160, 5760, 8239, 8287, 12288, 65279}
     \<or> (8192 \<le> unat c \<and> unat c \<le> 8202))"

text \<open>\<^verbatim>\<open>Number(n).toString(16)\<close>: lower-case digits, no leading zero, a minus sign first.\<close>

definition hexDigit :: "nat \<Rightarrow> 16 word" where
  "hexDigit d = (if d < 10 then of_nat (48 + d) else of_nat (87 + d))"

function toString16 :: "nat \<Rightarrow> jsstring" where
  "toString16 n = (if n < 16 then [hexDigit n] else toString16 (n div 16) @ [hexDigit (n mod 16)])"
  by pat_completeness auto
termination
  by (relation "measure id") auto

declare toString16.simps [simp del]

definition numberToString16 :: "int \<Rightarrow> jsstring" where
  "numberToString16 n = (if n < 0 then 45 # toString16 (nat (- n)) else toString16 (nat n))"

text \<open>\<^verbatim>\<open>s.substr(-2)\<close>: the last two code units, or all of a shorter string.\<close>

definition substr_last2 :: "jsstring \<Rightarrow> jsstring" where
  "substr_last2 s = drop (length s - 2) s"

text \<open>
  \<^verbatim>\<open>parseInt(hex, 16)\<close>: leading white space is skipped, then a sign, then \<^verbatim>\<open>0x\<close> or
  \<^verbatim>\<open>0X\<close>, then the longest run of hexadecimal digits is read; no digit gives \<^verbatim>\<open>NaN\<close>
  (\<open>None\<close>).
\<close>

definition digitValue :: "16 word \<Rightarrow> nat option" where
  "digitValue c =
     (let n = unat c in
      if 48 \<le> n \<and> n \<le> 57 then Some (n - 48)
      else if 97 \<le> n \<and> n \<le> 102 then Some (n - 87)
      else if 65 \<le> n \<and> n \<le> 70 then Some (n - 55)
      else None)"

fun hexPrefix :: "jsstring \<Rightarrow> nat list" where
  "hexPrefix [] = []"
| "hexPrefix (c # cs) = (case digitValue c of None \<Rightarrow> [] | Some d \<Rightarrow> d # hexPrefix cs)"

definition stripSign :: "jsstring \<Rightarrow> bool \<times> jsstring" where
  "stripSign s =
     (case s of
        [] \<Rightarrow> (False, [])
      | c # cs \<Rightarrow> if c = 45 then (True, cs) else if c = 43 then (False, cs) else (False, s))"

definition strip0x :: "jsstring \<Rightarrow> jsstring" where
  "strip0x s =
     (case s of
        a # b # cs \<Rightarrow> if a = 48 \<and> (b = 120 \<or> b = 88) then cs else s
      | _ \<Rightarrow> s)"

definition parseInt16 :: "jsstring \<Rightarrow> int option" where
  "parseInt16 s =
     (let (neg, body) = stripSign (dropWhile isWhiteSpace s);
          ds = hexPrefix (strip0x body)
      in if ds = [] then None
         else let v = int (foldl (\<lambda>a d. 16 * a + d) 0 ds) in Some (if neg then - v else v))"

text \<open>The bitwise operators read \<^verbatim>\<open>NaN\<close> as 0, and so does \<^verbatim>\<open>String.fromCharCode\<close>.\<close>

definition toInt32 :: "int option \<Rightarrow> int" where
  "toInt32 n = (case n of None \<Rightarrow> 0 | Some v \<Rightarrow> v)"

definition fromCharCode :: "int \<Rightarrow> 16 word" where
  "fromCharCode n = word_of_int n"

text \<open>
  \<^verbatim>\<open>encoded.match(/.{1,2}/g) || []\<close>: the string cut into pairs from the left, a last
  single unit allowed; the dot matches no line terminator, so a line terminator is skipped
  and ends the pair before it.
\<close>

fun match_pairs :: "jsstring \<Rightarrow> jsstring list" where
  "match_pairs [] = []"
| "match_pairs [a] = (if isLineTerminator a then [] else [[a]])"
| "match_pairs (a # b # cs) =
     (if isLineTerminator a then match_pairs (b # cs)
      else if isLineTerminator b then [a] # match_pairs cs
      else [a, b] # match_pairs cs)"

text \<open>The three helpers of \<^verbatim>\<open>makeEncryptor(key)\<close> and its two functions.\<close>

definition textToChars :: "jsstring \<Rightarrow> int list" where
  "textToChars text = map uint text"

definition byteHex :: "int \<Rightarrow> jsstring" where
  "byteHex n = substr_last2 (48 # numberToString16 n)"

definition applyKeyToChar :: "jsstring \<Rightarrow> int \<Rightarrow> int" where
  "applyKeyToChar key code = foldl (\<lambda>a b. a XOR b) code (textToChars key)"

definition decrypt :: "jsstring \<Rightarrow> jsstring \<Rightarrow> jsstring" where
  "decrypt key encoded =
     map fromCharCode
       (map (applyKeyToChar key)
         (map (\<lambda>hex. toInt32 (parseInt16 hex)) (match_pairs encoded)))"

definition encrypt :: "jsstring \<Rightarrow> jsstring \<Rightarrow> jsstring" where
  "encrypt key text = concat (map byteHex (map (applyKeyToChar key) (textToChars text)))"

text \<open>\<^verbatim>\<open>paramsEncoder = makeEncryptor('nothing-secret')\<close> (shared.ts).\<close>

definition paramsEncoder_key :: jsstring where
  "paramsEncoder_key = str ''nothing-secret''"

definition paramsEncoder_encrypt :: "jsstring \<Rightarrow> jsstring" where
  "paramsEncoder_encrypt = encrypt paramsEncoder_key"

definition paramsEncoder_decrypt :: "jsstring \<Rightarrow> jsstring" where
  "paramsEncoder_decrypt = decrypt paramsEncoder_key"


section \<open>The server (server.ts, \<^verbatim>\<open>createJsonrpcServer\<close>)\<close>

text \<open>
  A socket is a handle of the transport; \<^verbatim>\<open>isClosed\<close> is the transport's own flag. The
  server's effects are what it hands to \<^verbatim>\<open>sock.send\<close> (the value given to
  \<^verbatim>\<open>JSON.stringify\<close>, which leaves out properties that are \<^verbatim>\<open>undefined\<close>) and its one
  warning. What the transport does with a send is not part of this repository.
\<close>

record WebSocket =
  conn :: nat
  isClosed :: bool

datatype server_effect =
    SockSend WebSocket jsval
  | ConsoleWarn

text \<open>
  \<^verbatim>\<open>send(sock, message)\<close>: the loop stamps each message and, when there is exactly one,
  sends it from inside the loop; any other number of messages is sent as one array after
  the loop. Every call site passes objects; the stamp is modelled on objects only.
\<close>

fun stamp :: "jsval \<Rightarrow> jsval" where
  "stamp (JObj kvs) = JObj (assign kvs ''jsonrpc'' (JStr ''2.0''))"
| "stamp v = v"

definition send_each :: "WebSocket \<Rightarrow> nat \<Rightarrow> jsval list \<times> server_effect list \<Rightarrow> jsval \<Rightarrow> jsval list \<times> server_effect list" where
  "send_each sock len acc message =
     (let m = stamp message
      in (fst acc @ [m], if len = 1 then snd acc @ [SockSend sock m] else snd acc))"

definition send :: "WebSocket \<Rightarrow> jsval \<Rightarrow> server_effect list" where
  "send sock message =
     (let messages = makeArray message;
          (stamped, out) = foldl (send_each sock (length messages)) ([], []) messages
      in if length messages \<noteq> 1 then out @ [SockSend sock (JArr stamped)] else out)"

text \<open>
  \<^verbatim>\<open>parseRequest\<close>: an element is either \<^verbatim>\<open>'invalid'\<close> or the request object, of which
  the code later reads \<^verbatim>\<open>method\<close>, \<^verbatim>\<open>id\<close> and \<^verbatim>\<open>params\<close> (\<^verbatim>\<open>undefined\<close> when absent).
  The result \<open>None\<close> is \<^verbatim>\<open>'parse-error'\<close>.
\<close>

datatype request =
    Invalid
  | Request (req_method: string) (req_id: jsval) (req_params: jsval)

text \<open>The checks \<^verbatim>\<open>parseRequest\<close> makes on one element of the array, in the order of the source.\<close>

definition classify :: "jsval \<Rightarrow> request" where
  "classify obj =
     (if \<not> typeof_object obj then Invalid
      else if \<not> truthy obj then Invalid
      else if get_prop obj ''jsonrpc'' \<noteq> JStr ''2.0'' then Invalid
      else (case get_prop obj ''method'' of
              JStr m \<Rightarrow> Request m (get_prop obj ''id'') (get_prop obj ''params'')
            | _ \<Rightarrow> Invalid))"

definition parseRequest :: "jsval option \<Rightarrow> request list option" where
  "parseRequest json =
     (case json of
        None \<Rightarrow> None
      | Some v \<Rightarrow>
          (let res = map classify (makeArray v)
           in if res = [] then Some [Invalid] else Some res))"

text \<open>
  A registered method is an async function of the parameters and the client id
  (\<^verbatim>\<open>method\<close> wraps every listener in one): awaiting it gives a result (\<open>Inr\<close>) or throws
  what the listener threw or rejected with (\<open>Inl\<close>). An emitter is called and not awaited:
  what counts for \<^verbatim>\<open>handleRequest\<close> is which values it passes to \<^verbatim>\<open>emit\<close> before it
  returns, and whether it throws before it returns. Later calls of \<^verbatim>\<open>emit\<close> are separate
  sends, each \<open>emit\<close> below.
\<close>

type_synonym method_handler = "jsval \<Rightarrow> string \<Rightarrow> jsval + jsval"
type_synonym emitter_handler = "jsval \<Rightarrow> string \<Rightarrow> jsval list \<times> jsval option"

definition endsWith_colon :: "string \<Rightarrow> bool" where
  "endsWith_colon s = (s \<noteq> [] \<and> last s = CHR '':'')"

definition error_response :: "jsval \<Rightarrow> int \<Rightarrow> string \<Rightarrow> jsval" where
  "error_response i code message =
     JObj [(''error'', JObj [(''code'', JNum code), (''message'', JStr message)]), (''id'', i)]"

text \<open>The callback an emitter receives: \<^verbatim>\<open>data => { send(sock, { result: data, id: request.id }) }\<close>.\<close>

definition emit :: "WebSocket \<Rightarrow> jsval \<Rightarrow> jsval \<Rightarrow> server_effect list" where
  "emit sock request_id data = send sock (JObj [(''result'', data), (''id'', request_id)])"

record progress =
  responses :: "jsval list"
  sent :: "server_effect list"

text \<open>The callback of the loop in \<^verbatim>\<open>handleRequest\<close>, one request at a time.\<close>

definition dispatch ::
  "(string \<rightharpoonup> method_handler) \<Rightarrow> (string \<rightharpoonup> emitter_handler) \<Rightarrow> WebSocket \<Rightarrow> string \<Rightarrow>
     request \<Rightarrow> progress \<Rightarrow> progress \<times> jsval option" where
  "dispatch methods emitters sock client request st =
     (case request of
        Invalid \<Rightarrow>
          (st\<lparr>responses := responses st @
             [JObj [(''id'', JNull),
                    (''error'', JObj [(''code'', JNum (- 32600)), (''message'', JStr ''Invalid Request'')])]]\<rparr>,
           None)
      | Request m i p \<Rightarrow>
          if \<not> endsWith_colon m then
            (case methods m of
               None \<Rightarrow>
                 if i \<noteq> JUndefined
                 then (st\<lparr>responses := responses st @ [error_response i (- 32601) ''Method not found'']\<rparr>, None)
                 else (st, None)
             | Some handler \<Rightarrow>
                 (case handler p client of
                    Inl e \<Rightarrow> (st, Some e)
                  | Inr result \<Rightarrow>
                      if i \<noteq> JUndefined
                      then (st\<lparr>responses := responses st @ [JObj [(''id'', i), (''result'', result)]]\<rparr>, None)
                      else (st, None)))
          else
            (case emitters m of
               None \<Rightarrow>
                 if i \<noteq> JUndefined
                 then (st\<lparr>responses := responses st @ [error_response i (- 32601) ''Emitter not found'']\<rparr>, None)
                 else (st, None)
             | Some handler \<Rightarrow>
                 (case handler p client of
                    (emitted, thrown) \<Rightarrow>
                      (st\<lparr>sent := sent st @ concat (map (emit sock i) emitted)\<rparr>, thrown))))"

text \<open>
  \<^verbatim>\<open>handleRequest(client, raw)\<close>: the effects in order, and the value the returned promise
  rejects with, if it does. \<open>raw\<close> is the frame as \<^verbatim>\<open>JSON.parse\<close> sees it.
\<close>

definition handleRequest ::
  "(string \<rightharpoonup> WebSocket) \<Rightarrow> (string \<rightharpoonup> method_handler) \<Rightarrow> (string \<rightharpoonup> emitter_handler) \<Rightarrow>
     string \<Rightarrow> jsval option \<Rightarrow> server_effect list \<times> jsval option" where
  "handleRequest socks methods emitters client raw =
     (case socks client of
        None \<Rightarrow> ([ConsoleWarn], None)
      | Some sock \<Rightarrow>
          (case parseRequest raw of
             None \<Rightarrow>
               (send sock (JObj [(''id'', JNull),
                                 (''error'', JObj [(''code'', JNum (- 32700)), (''message'', JStr ''Parse error'')])]),
                None)
           | Some requests \<Rightarrow>
               (case asyncForEach requests (dispatch methods emitters sock client) \<lparr>responses = [], sent = []\<rparr> of
                  (st, Some e) \<Rightarrow> (sent st, Some e)
                | (st, None) \<Rightarrow> (sent st @ send sock (JArr (responses st)), None))))"

text \<open>\<^verbatim>\<open>method\<close> and \<^verbatim>\<open>emitter\<close> register a handler; an emitter's key gets the colon.\<close>

definition register_method :: "(string \<rightharpoonup> method_handler) \<Rightarrow> string \<Rightarrow> method_handler \<Rightarrow> (string \<rightharpoonup> method_handler)" where
  "register_method methods name listener = methods(name \<mapsto> listener)"

definition register_emitter :: "(string \<rightharpoonup> emitter_handler) \<Rightarrow> string \<Rightarrow> emitter_handler \<Rightarrow> (string \<rightharpoonup> emitter_handler)" where
  "register_emitter emitters name listener = emitters(name @ '':'' \<mapsto> listener)"


section \<open>The client (client.ts, \<^verbatim>\<open>connect\<close>)\<close>

text \<open>
  The options say whether a callback is configured; a call of one is recorded as an
  effect. \<^verbatim>\<open>options.retryCount\<close> and \<^verbatim>\<open>options.retryInterval\<close> are \<open>None\<close> when absent.
\<close>

record ListenOptions =
  options_params :: jsval
  options_listener :: bool
  options_errorHandler :: bool

record ConnectOptions =
  options_onGeneralError :: bool
  options_retryCount :: "int option"
  options_retryInterval :: "int option"

text \<open>
  The two closures stored in \<^verbatim>\<open>listeners\<close>: the one \<^verbatim>\<open>call\<close> registers and the one
  \<^verbatim>\<open>listen\<close> registers. Each is stored under the id it captures, so the key it is found
  under is that id. The closure of \<^verbatim>\<open>call\<close> holds the \<^verbatim>\<open>resolve\<close> and \<^verbatim>\<open>reject\<close> of its
  promise; the flag says that the promise is settled already, which happens when
  \<^verbatim>\<open>sendMessage\<close> throws inside the executor after the closure has been stored. A settled
  promise stays as it is: \<^verbatim>\<open>resolve\<close> and \<^verbatim>\<open>reject\<close> do nothing on it.
\<close>

datatype callback =
    CallCb bool
  | ListenCb ListenOptions

text \<open>What is thrown or rejected with: a value, or an \<^verbatim>\<open>Error\<close> object with its message.\<close>

datatype thrown =
    Value jsval
  | Error string

datatype client_effect =
    NewWebSocket
  | WsSend jsval
  | WsClose
  | SetTimeout int
  | ConnectResolved
  | Resolved string jsval
  | Rejected string thrown
  | ListenerCalled string jsval
  | ErrorHandlerCalled string jsval
  | GeneralError jsval
  | Throw thrown

text \<open>
  The variables of \<^verbatim>\<open>connect\<close>. \<open>outgoing\<close> is \<open>None\<close> once it has been set to
  \<^verbatim>\<open>null\<close>; a queued message is the value given to \<^verbatim>\<open>JSON.stringify\<close>.
\<close>

record client =
  listeners :: "string \<rightharpoonup> callback"
  outgoing :: "jsval list option"
  retryCount :: nat

definition tryToConnect :: "client \<Rightarrow> client \<times> client_effect list" where
  "tryToConnect c = (c, [NewWebSocket])"

definition sendAllMessages :: "client \<Rightarrow> client \<times> client_effect list" where
  "sendAllMessages c =
     (case outgoing c of
        None \<Rightarrow> (c, [WsClose])
      | Some messages \<Rightarrow> (c\<lparr>outgoing := Some []\<rparr>, map WsSend messages))"

text \<open>\<open>isOpen\<close> is \<^verbatim>\<open>ws.readyState === ws.OPEN\<close> of the latest socket, read when the notifier runs.\<close>

definition newOutgoingMessageNotifier :: "bool \<Rightarrow> client \<Rightarrow> client \<times> client_effect list" where
  "newOutgoingMessageNotifier isOpen c = (if isOpen then sendAllMessages c else (c, []))"

definition onopen :: "client \<Rightarrow> client \<times> client_effect list" where
  "onopen c = (case sendAllMessages c of (c', es) \<Rightarrow> (c', es @ [ConnectResolved]))"

text \<open>\<^verbatim>\<open>options.retryCount || Infinity\<close>, with \<open>None\<close> for \<^verbatim>\<open>Infinity\<close>, and \<^verbatim>\<open>options.retryInterval || 2000\<close>.\<close>

definition retry_limit :: "ConnectOptions \<Rightarrow> int option" where
  "retry_limit options =
     (case options_retryCount options of
        None \<Rightarrow> None
      | Some n \<Rightarrow> if n = 0 then None else Some n)"

definition retry_delay :: "ConnectOptions \<Rightarrow> int" where
  "retry_delay options =
     (case options_retryInterval options of
        None \<Rightarrow> 2000
      | Some n \<Rightarrow> if n = 0 then 2000 else n)"

definition retries_exhausted :: "ConnectOptions \<Rightarrow> client \<Rightarrow> bool" where
  "retries_exhausted options c =
     (case retry_limit options of
        None \<Rightarrow> False
      | Some limit \<Rightarrow> limit \<le> int (retryCount c))"

definition failed_to_connect :: jsval where
  "failed_to_connect = JObj [(''message'', JStr ''Failed to connect''), (''code'', JNum 101)]"

definition onerror :: "ConnectOptions \<Rightarrow> client \<Rightarrow> client \<times> client_effect list" where
  "onerror options c =
     (if retries_exhausted options c \<and> \<not> options_onGeneralError options
      then (c, [Throw (Value failed_to_connect)])
      else (c\<lparr>retryCount := retryCount c + 1\<rparr>,
            (if retries_exhausted options c then [GeneralError failed_to_connect] else [])
              @ [SetTimeout (retry_delay options)]))"

text \<open>The function given to \<^verbatim>\<open>setTimeout\<close> in \<^verbatim>\<open>onerror\<close>, when the timer fires.\<close>

definition retry_timer :: "client \<Rightarrow> client \<times> client_effect list" where
  "retry_timer c = (if outgoing c \<noteq> None then tryToConnect c else (c, []))"

text \<open>
  \<^verbatim>\<open>parseResponse\<close>. The event's data is not a string, or a string as \<^verbatim>\<open>JSON.parse\<close>
  sees it. \<^verbatim>\<open>obj.hasOwnProperty(key)\<close> throws a \<^verbatim>\<open>TypeError\<close> (\<open>None\<close>) on \<^verbatim>\<open>null\<close> and
  on an object whose own \<^verbatim>\<open>hasOwnProperty\<close> property hides the method; a primitive or an
  array has neither an \<^verbatim>\<open>id\<close> nor a \<^verbatim>\<open>result\<close> of its own. Every exception ends in the
  \<^verbatim>\<open>catch\<close>, which returns \<^verbatim>\<open>null\<close> (\<open>None\<close>). The warnings are not recorded.
\<close>

datatype evdata =
    NotAString
  | Text "jsval option"

record Response =
  res_id :: jsval
  res_result :: jsval
  res_error :: jsval

fun hasOwnProperty :: "jsval \<Rightarrow> string \<Rightarrow> bool option" where
  "hasOwnProperty JUndefined key = None"
| "hasOwnProperty JNull key = None"
| "hasOwnProperty (JObj kvs) key =
     (if map_of kvs ''hasOwnProperty'' \<noteq> None then None else Some (map_of kvs key \<noteq> None))"
| "hasOwnProperty v key = Some False"

fun collect :: "jsval list \<Rightarrow> Response list \<Rightarrow> Response list option" where
  "collect [] res = Some res"
| "collect (obj # rest) res =
     (case hasOwnProperty obj ''id'' of
        None \<Rightarrow> None
      | Some has_id \<Rightarrow>
          if has_id \<and> (hasOwnProperty obj ''result'' = Some True \<or> truthy (get_prop obj ''error''))
          then collect rest
                 (res @ [\<lparr>res_id = get_prop obj ''id'', res_result = get_prop obj ''result'',
                          res_error = get_prop obj ''error''\<rparr>])
          else collect rest res)"

definition parseResponse :: "evdata \<Rightarrow> Response list option" where
  "parseResponse json =
     (case json of
        NotAString \<Rightarrow> None
      | Text None \<Rightarrow> None
      | Text (Some v) \<Rightarrow> collect (makeArray v) [])"

text \<open>
  Calling the closure found under \<open>key\<close> with \<^verbatim>\<open>(error, data)\<close>. The one of \<^verbatim>\<open>call\<close>
  deletes its entry and settles the promise, unless the promise is settled already; the one
  of \<^verbatim>\<open>listen\<close> calls the configured callbacks.
\<close>

definition invoke :: "callback \<Rightarrow> string \<Rightarrow> jsval \<Rightarrow> jsval \<Rightarrow> client \<Rightarrow> client \<times> client_effect list" where
  "invoke cb key error data c =
     (case cb of
        CallCb settled \<Rightarrow>
          (c\<lparr>listeners := (listeners c)(key := None)\<rparr>,
           if settled then []
           else if truthy error then [Rejected key (Value error)]
           else if data \<noteq> JUndefined then [Resolved key data]
           else [])
      | ListenCb options \<Rightarrow>
          (c,
           (if options_errorHandler options \<and> truthy error then [ErrorHandlerCalled key error] else [])
             @ (if options_listener options \<and> truthy data then [ListenerCalled key data] else [])))"

text \<open>
  The body of \<^verbatim>\<open>res.forEach\<close> in \<^verbatim>\<open>onmessage\<close>. \<^verbatim>\<open>listeners.get(res.id)\<close> finds an
  entry only for a string id, the keys being strings.
\<close>

definition handleResponse :: "ConnectOptions \<Rightarrow> Response \<Rightarrow> client \<Rightarrow> (client \<times> client_effect list) \<times> thrown option" where
  "handleResponse options res c =
     (if res_id res = JNull then
        (if truthy (res_error res) then
           (if options_onGeneralError options then ((c, [GeneralError (res_error res)]), None)
            else ((c, []), Some (Value (res_error res))))
         else ((c, []), None))
      else
        (case res_id res of
           JStr key \<Rightarrow>
             (case listeners c key of
                None \<Rightarrow> ((c, []), None)
              | Some listener \<Rightarrow> (invoke listener key (res_error res) (nullish_null (res_result res)) c, None))
         | _ \<Rightarrow> ((c, []), None)))"

text \<open>\<^verbatim>\<open>forEach\<close> over the responses: an exception leaves the loop and the handler.\<close>

fun forEach_response :: "ConnectOptions \<Rightarrow> Response list \<Rightarrow> client \<Rightarrow> client \<times> client_effect list" where
  "forEach_response options [] c = (c, [])"
| "forEach_response options (res # rest) c =
     (case handleResponse options res c of
        ((c', es), Some e) \<Rightarrow> (c', es @ [Throw e])
      | ((c', es), None) \<Rightarrow>
          (case forEach_response options rest c' of (c'', es') \<Rightarrow> (c'', es @ es')))"

definition onmessage :: "ConnectOptions \<Rightarrow> evdata \<Rightarrow> client \<Rightarrow> client \<times> client_effect list" where
  "onmessage options data c =
     (case parseResponse data of
        None \<Rightarrow> (c, [])
      | Some res \<Rightarrow> forEach_response options res c)"

text \<open>
  \<^verbatim>\<open>sendMessage(method, params, id)\<close>: \<open>Inl\<close> is the exception it throws. The id is added
  when it is truthy.
\<close>

definition closed_error :: thrown where
  "closed_error = Error ''Cannot send message because the socket has been manually closed''"

definition sendMessage :: "bool \<Rightarrow> string \<Rightarrow> jsval \<Rightarrow> string option \<Rightarrow> client \<Rightarrow> thrown + client \<times> client_effect list" where
  "sendMessage isOpen method_name ps ident c =
     (let message = JObj ([(''jsonrpc'', JStr ''2.0''), (''method'', JStr method_name), (''params'', ps)]
                          @ (case ident of
                               None \<Rightarrow> []
                             | Some i \<Rightarrow> if i \<noteq> [] then [(''id'', JStr i)] else []))
      in case outgoing c of
           None \<Rightarrow> Inl closed_error
         | Some queue \<Rightarrow> Inr (newOutgoingMessageNotifier isOpen (c\<lparr>outgoing := Some (queue @ [message])\<rparr>)))"

text \<open>A parameter with the default \<^verbatim>\<open>= null\<close>.\<close>

fun default_null :: "jsval \<Rightarrow> jsval" where
  "default_null JUndefined = JNull"
| "default_null v = v"

text \<open>
  \<^verbatim>\<open>call\<close>, with the id that \<^verbatim>\<open>v4.generate()\<close> returns: the executor stores the closure
  and then sends; an exception in the executor rejects the promise, and the closure stays
  stored with its promise settled.
\<close>

definition call :: "bool \<Rightarrow> string \<Rightarrow> string \<Rightarrow> jsval \<Rightarrow> client \<Rightarrow> client \<times> client_effect list" where
  "call isOpen ident method_name ps c =
     (let c1 = c\<lparr>listeners := (listeners c)(ident \<mapsto> CallCb False)\<rparr>
      in case sendMessage isOpen method_name (default_null ps) (Some ident) c1 of
           Inl e \<Rightarrow> (c\<lparr>listeners := (listeners c)(ident \<mapsto> CallCb True)\<rparr>, [Rejected ident e])
         | Inr r \<Rightarrow> r)"

definition notify :: "bool \<Rightarrow> string \<Rightarrow> jsval \<Rightarrow> client \<Rightarrow> client \<times> client_effect list" where
  "notify isOpen method_name ps c =
     (case sendMessage isOpen method_name (default_null ps) None c of
        Inl e \<Rightarrow> (c, [Throw e])
      | Inr r \<Rightarrow> r)"

definition listen :: "bool \<Rightarrow> string \<Rightarrow> string \<Rightarrow> ListenOptions \<Rightarrow> client \<Rightarrow> client \<times> client_effect list" where
  "listen isOpen ident method_name options c =
     (let c1 = c\<lparr>listeners := (listeners c)(ident \<mapsto> ListenCb options)\<rparr>
      in case sendMessage isOpen (method_name @ '':'')
                (if truthy (options_params options) then options_params options else JNull) (Some ident) c1 of
           Inl e \<Rightarrow> (c1, [Throw e])
         | Inr r \<Rightarrow> r)"

definition close :: "bool \<Rightarrow> client \<Rightarrow> client \<times> client_effect list" where
  "close isOpen c = newOutgoingMessageNotifier isOpen (c\<lparr>outgoing := None\<rparr>)"

text \<open>
  Everything that can happen to a client once \<^verbatim>\<open>connect\<close> has set it up: the application
  calls one of the four functions, or the socket or the retry timer calls a handler.
\<close>

datatype action =
    Call bool string string jsval
  | Notify bool string jsval
  | Listen bool string string ListenOptions
  | Close bool
  | OnOpen
  | OnError
  | OnMessage evdata
  | RetryTimer

fun step :: "ConnectOptions \<Rightarrow> action \<Rightarrow> client \<Rightarrow> client \<times> client_effect list" where
  "step options (Call isOpen ident m ps) c = call isOpen ident m ps c"
| "step options (Notify isOpen m ps) c = notify isOpen m ps c"
| "step options (Listen isOpen ident m lo) c = listen isOpen ident m lo c"
| "step options (Close isOpen) c = close isOpen c"
| "step options OnOpen c = onopen c"
| "step options OnError c = onerror options c"
| "step options (OnMessage data) c = onmessage options data c"
| "step options RetryTimer c = retry_timer c"

fun run :: "ConnectOptions \<Rightarrow> action list \<Rightarrow> client \<Rightarrow> client \<times> client_effect list" where
  "run options [] c = (c, [])"
| "run options (a # as) c =
     (case step options a c of
        (c', es) \<Rightarrow> (case run options as c' of (c'', es') \<Rightarrow> (c'', es @ es')))"

text \<open>
  The frame a client reads for a value the server sends: \<^verbatim>\<open>JSON.stringify\<close> leaves out
  the properties that are \<^verbatim>\<open>undefined\<close> and writes \<^verbatim>\<open>null\<close> for such an array element,
  and \<^verbatim>\<open>JSON.parse\<close> reads the rest back as it was.
\<close>

fun wire :: "jsval \<Rightarrow> jsval" where
  "wire JUndefined = JNull"
| "wire (JArr xs) = JArr (map wire xs)"
| "wire (JObj kvs) = JObj (map (\<lambda>(k, v). (k, wire v)) (filter (\<lambda>(k, v). v \<noteq> JUndefined) kvs))"
| "wire v = v"

fun frames :: "server_effect list \<Rightarrow> action list" where
  "frames [] = []"
| "frames (SockSend sock v # es) = OnMessage (Text (Some (wire v))) # frames es"
| "frames (ConsoleWarn # es) = frames es"


text \<open>The client after \<^verbatim>\<open>close()\<close> and any further actions.\<close>

definition after_close :: "ConnectOptions \<Rightarrow> bool \<Rightarrow> action list \<Rightarrow> client \<Rightarrow> client" where
  "after_close options isOpen as c = fst (run options as (fst (close isOpen c)))"

text \<open>The actions that store a closure under \<open>key\<close>: a \<^verbatim>\<open>call\<close> or \<^verbatim>\<open>listen\<close> given that id.\<close>

fun registers :: "string \<Rightarrow> action \<Rightarrow> bool" where
  "registers key (Call isOpen ident m ps) = (ident = key)"
| "registers key (Listen isOpen ident m lo) = (ident = key)"
| "registers key a = False"

text \<open>
  The Responses on which the body of \<^verbatim>\<open>res.forEach\<close> throws: an untargeted error when no
  \<^verbatim>\<open>onGeneralError\<close> is configured.
\<close>

definition throws :: "ConnectOptions \<Rightarrow> Response \<Rightarrow> bool" where
  "throws options res = (res_id res = JNull \<and> truthy (res_error res) \<and> \<not> options_onGeneralError options)"

text \<open>The frames that carry a Response with the id \<open>key\<close>.\<close>

fun answers :: "string \<Rightarrow> action \<Rightarrow> bool" where
  "answers key (OnMessage data) =
     (case parseResponse data of
        None \<Rightarrow> False
      | Some res \<Rightarrow> JStr key \<in> set (map res_id res))"
| "answers key a = False"


section \<open>Example handlers\<close>

text \<open>A method whose listener throws, and a method that answers with its parameters.\<close>

definition failing_method :: method_handler where
  "failing_method ps client = Inl (JStr ''boom'')"

definition echo_method :: method_handler where
  "echo_method ps client = Inr ps"


section \<open>Properties of the handshake encoder\<close>

lemma unat_hexDigit: "d < 16 \<Longrightarrow> unat (hexDigit d) = (if d < 10 then 48 + d else 87 + d)"
proof -
  assume d: "d < 16"
  have "unat (of_nat (48 + d) :: 16 word) = 48 + d" "unat (of_nat (87 + d) :: 16 word) = 87 + d"
    using d by (simp_all only: unat_of_nat) simp_all
  then show ?thesis
    unfolding hexDigit_def by (cases "d < 10") simp_all
qed

lemma digitValue_hexDigit: "d < 16 \<Longrightarrow> digitValue (hexDigit d) = Some d"
  by (simp add: digitValue_def unat_hexDigit)

lemma hexDigit_plain:
  "d < 16 \<Longrightarrow> \<not> isLineTerminator (hexDigit d) \<and> \<not> isWhiteSpace (hexDigit d)
     \<and> hexDigit d \<noteq> 45 \<and> hexDigit d \<noteq> 43 \<and> hexDigit d \<noteq> 120 \<and> hexDigit d \<noteq> 88"
  by (simp add: isLineTerminator_def isWhiteSpace_def unat_hexDigit word_unat_eq_iff)

lemma toString16_byte:
  "n < 256 \<Longrightarrow> toString16 n = (if n < 16 then [hexDigit n] else [hexDigit (n div 16), hexDigit (n mod 16)])"
proof (cases "n < 16")
  case True
  then show ?thesis by (simp add: toString16.simps [of n])
next
  case False
  assume "n < 256"
  then have "n div 16 < 16" by simp
  then show ?thesis using False
    by (simp add: toString16.simps [of n] toString16.simps [of "n div 16"])
qed

lemma byteHex_byte:
  assumes "0 \<le> n" "n < 256"
  shows "byteHex n = [hexDigit (nat n div 16), hexDigit (nat n mod 16)]"
proof -
  have "nat n < 256" using assms by simp
  then show ?thesis
    using assms by (simp add: byteHex_def numberToString16_def substr_last2_def toString16_byte hexDigit_def)
qed

lemma parseInt16_pair:
  assumes "a < 16" "b < 16"
  shows "parseInt16 [hexDigit a, hexDigit b] = Some (int (16 * a + b))"
  using hexDigit_plain [OF assms(1)] hexDigit_plain [OF assms(2)]
  by (simp add: parseInt16_def stripSign_def strip0x_def digitValue_hexDigit assms)

lemma parseInt16_byteHex:
  assumes "0 \<le> n" "n < 256"
  shows "toInt32 (parseInt16 (byteHex n)) = n"
proof -
  have "nat n div 16 < 16" "nat n mod 16 < 16" using assms by auto
  then show ?thesis
    using assms by (simp add: byteHex_byte parseInt16_pair toInt32_def)
qed

lemma match_pairs_byteHex:
  assumes "\<forall>n \<in> set ns. 0 \<le> n \<and> n < 256"
  shows "match_pairs (concat (map byteHex ns)) = map byteHex ns"
  using assms
proof (induction ns)
  case Nil
  then show ?case by simp
next
  case (Cons n ns)
  have "nat n div 16 < 16" "nat n mod 16 < 16" using Cons.prems by auto
  then have "\<not> isLineTerminator (hexDigit (nat n div 16))" "\<not> isLineTerminator (hexDigit (nat n mod 16))"
    using hexDigit_plain by blast+
  then show ?case using Cons by (simp add: byteHex_byte)
qed

lemma foldl_xor: "foldl (\<lambda>a b. a XOR b) (c::int) ks = c XOR foldl (\<lambda>a b. a XOR b) 0 ks"
proof (induction ks arbitrary: c)
  case Nil
  then show ?case by simp
next
  case (Cons k ks)
  show ?case
    by (simp add: Cons.IH [of "c XOR k"] Cons.IH [of k] xor.assoc)
qed

lemma applyKeyToChar_involution: "applyKeyToChar key (applyKeyToChar key c) = c"
proof -
  define K where "K = foldl (\<lambda>a b. a XOR b) (0::int) (textToChars key)"
  have "applyKeyToChar key x = x XOR K" for x
    unfolding applyKeyToChar_def K_def by (rule foldl_xor)
  then show ?thesis by (simp add: xor.assoc)
qed

lemma foldl_xor_byte:
  assumes "0 \<le> c" "c < 256" "\<forall>k \<in> set ks. 0 \<le> k \<and> k < 256"
  shows "0 \<le> foldl (\<lambda>a b. a XOR b) (c::int) ks \<and> foldl (\<lambda>a b. a XOR b) c ks < 256"
  using assms
proof (induction ks arbitrary: c)
  case Nil
  then show ?case by simp
next
  case (Cons k ks)
  have "0 \<le> c XOR k" using Cons.prems by simp
  moreover have "c XOR k < 2 ^ 8" using Cons.prems by (intro XOR_upper) auto
  ultimately show ?case using Cons by simp
qed

lemma decrypt_encrypt_bytes:
  assumes keyb: "\<forall>k \<in> set key. k < 256" and txtb: "\<forall>c \<in> set s. c < 256"
  shows "decrypt key (encrypt key s) = s"
proof -
  let ?ns = "map (applyKeyToChar key) (textToChars s)"
  have kb: "\<forall>k \<in> set (textToChars key). 0 \<le> k \<and> k < 256"
    using keyb by (auto simp: textToChars_def word_less_def)
  have nb: "\<forall>n \<in> set ?ns. 0 \<le> n \<and> n < 256"
  proof
    fix n assume "n \<in> set ?ns"
    then obtain c where c: "c \<in> set s" and n: "n = applyKeyToChar key (uint c)"
      by (auto simp: textToChars_def)
    have "uint c < 256" using txtb c by (auto simp: word_less_def)
    then show "0 \<le> n \<and> n < 256"
      unfolding n applyKeyToChar_def using foldl_xor_byte [OF _ _ kb, of "uint c"] by simp
  qed
  have undo: "map (\<lambda>hex. toInt32 (parseInt16 hex)) (map byteHex ?ns) = ?ns"
    using nb by (simp add: map_idI parseInt16_byteHex)
  have "decrypt key (encrypt key s)
      = map fromCharCode (map (applyKeyToChar key) ?ns)"
    unfolding decrypt_def encrypt_def match_pairs_byteHex [OF nb] undo ..
  also have "\<dots> = s"
    by (simp add: textToChars_def applyKeyToChar_involution fromCharCode_def o_def)
  finally show ?thesis .
qed

lemma paramsEncoder_key_bytes: "\<forall>k \<in> set paramsEncoder_key. k < 256"
  by (simp add: paramsEncoder_key_def str_def)

lemma toString16_last: "toString16 n \<noteq> [] \<and> last (toString16 n) = hexDigit (n mod 16)"
  by (cases "n < 16") (simp_all add: toString16.simps [of n])

lemma byteHex_any:
  assumes "0 \<le> n"
  shows "byteHex n = [hexDigit (nat n div 16 mod 16), hexDigit (nat n mod 16)]"
proof (cases "nat n < 16")
  case True
  then show ?thesis
    using assms by (simp add: byteHex_def numberToString16_def substr_last2_def toString16.simps [of "nat n"] hexDigit_def)
next
  case False
  define t where "t = toString16 (nat n div 16)"
  have t: "t = butlast t @ [hexDigit (nat n div 16 mod 16)]"
    using toString16_last [of "nat n div 16"] unfolding t_def
    by (metis append_butlast_last_id)
  have "toString16 (nat n) = t @ [hexDigit (nat n mod 16)]"
    using False by (simp add: toString16.simps [of "nat n"] t_def)
  then have "toString16 (nat n) = butlast t @ [hexDigit (nat n div 16 mod 16), hexDigit (nat n mod 16)]"
    using t by (metis append.assoc append_Cons append_Nil)
  then show ?thesis
    using assms by (simp add: byteHex_def numberToString16_def substr_last2_def)
qed

lemma parseInt16_byteHex_any:
  assumes "0 \<le> n"
  shows "toInt32 (parseInt16 (byteHex n)) = n mod 256"
proof -
  define m where "m = nat n"
  have "m div 16 mod 16 < 16" and "m mod 16 < 16" by simp_all
  then have "parseInt16 [hexDigit (m div 16 mod 16), hexDigit (m mod 16)]
      = Some (int (16 * (m div 16 mod 16) + m mod 16))"
    by (rule parseInt16_pair)
  moreover have "16 * (m div 16 mod 16) + m mod 16 = m mod 256"
    using mod_mult2_eq [of m 16 16] by simp
  moreover have "int (m mod 256) = n mod 256"
    using assms by (simp add: m_def zmod_int)
  moreover have "byteHex n = [hexDigit (m div 16 mod 16), hexDigit (m mod 16)]"
    unfolding m_def using assms by (rule byteHex_any)
  ultimately show ?thesis by (simp only: toInt32_def option.case)
qed

lemma match_pairs_byteHex_any:
  assumes "\<forall>n \<in> set ns. 0 \<le> n"
  shows "match_pairs (concat (map byteHex ns)) = map byteHex ns"
  using assms
proof (induction ns)
  case Nil
  then show ?case by simp
next
  case (Cons n ns)
  have "nat n div 16 mod 16 < 16" "nat n mod 16 < 16" by simp_all
  then have "\<not> isLineTerminator (hexDigit (nat n div 16 mod 16))" "\<not> isLineTerminator (hexDigit (nat n mod 16))"
    using hexDigit_plain by blast+
  then show ?case using Cons by (simp add: byteHex_any)
qed

lemma foldl_xor_nonneg:
  assumes "0 \<le> c" "\<forall>k \<in> set ks. 0 \<le> k"
  shows "0 \<le> foldl (\<lambda>a b. a XOR b) (c::int) ks"
  using assms by (induction ks arbitrary: c) simp_all

lemma applyKeyToChar_nonneg: "0 \<le> c \<Longrightarrow> 0 \<le> applyKeyToChar key c"
  unfolding applyKeyToChar_def by (rule foldl_xor_nonneg) (auto simp: textToChars_def)

lemma decrypt_encrypt:
  "decrypt key (encrypt key s) =
     map (\<lambda>c. fromCharCode (applyKeyToChar key (applyKeyToChar key (uint c) mod 256))) s"
proof -
  let ?ns = "map (applyKeyToChar key) (textToChars s)"
  have nn: "\<forall>n \<in> set ?ns. 0 \<le> n"
    by (auto simp: textToChars_def applyKeyToChar_nonneg)
  have undo: "map (\<lambda>hex. toInt32 (parseInt16 hex)) (map byteHex ?ns) = map (\<lambda>n. n mod 256) ?ns"
    using nn by (simp add: parseInt16_byteHex_any)
  have "decrypt key (encrypt key s)
      = map fromCharCode (map (applyKeyToChar key) (map (\<lambda>n. n mod 256) ?ns))"
    unfolding decrypt_def encrypt_def match_pairs_byteHex_any [OF nn] undo ..
  then show ?thesis by (simp add: textToChars_def o_def)
qed

lemma decrypted_unit_is_byte:
  assumes "\<forall>k \<in> set key. k < 256"
  shows "fromCharCode (applyKeyToChar key (n mod 256)) < 256"
proof -
  have kb: "\<forall>k \<in> set (textToChars key). 0 \<le> k \<and> k < 256"
    using assms by (auto simp: textToChars_def word_less_def)
  have "0 \<le> n mod 256" "n mod 256 < 256" by simp_all
  then have b: "0 \<le> applyKeyToChar key (n mod 256) \<and> applyKeyToChar key (n mod 256) < 256"
    unfolding applyKeyToChar_def using foldl_xor_byte [OF _ _ kb] by blast
  then have "uint (word_of_int (applyKeyToChar key (n mod 256)) :: 16 word) = applyKeyToChar key (n mod 256)"
    by (simp add: uint_word_of_int)
  then show ?thesis using b by (simp add: fromCharCode_def word_less_def)
qed

lemma decrypt_encrypt_iff:
  assumes "\<forall>k \<in> set key. k < 256"
  shows "decrypt key (encrypt key s) = s \<longleftrightarrow> (\<forall>c \<in> set s. c < 256)"
proof
  assume eq: "decrypt key (encrypt key s) = s"
  show "\<forall>c \<in> set s. c < 256"
  proof
    fix c assume c: "c \<in> set s"
    have "map (\<lambda>c. fromCharCode (applyKeyToChar key (applyKeyToChar key (uint c) mod 256))) s = map (\<lambda>c. c) s"
      using eq by (simp add: decrypt_encrypt)
    then have "fromCharCode (applyKeyToChar key (applyKeyToChar key (uint c) mod 256)) = c"
      using c by (simp only: map_eq_conv)
    then show "c < 256"
      using decrypted_unit_is_byte [OF assms, of "applyKeyToChar key (uint c)"] by simp
  qed
next
  assume "\<forall>c \<in> set s. c < 256"
  then show "decrypt key (encrypt key s) = s"
    using assms by (simp add: decrypt_encrypt_bytes)
qed

text \<open>
  C6, as the code has it. Decrypting what the handshake encoder encrypted gives the string
  back exactly when every code unit of the string is below 256, as the printable ASCII
  characters are: \<^verbatim>\<open>byteHex\<close> keeps two hexadecimal digits, and a larger code unit comes back
  as another one.
\<close>

theorem paramsEncoder_roundtrip:
  "paramsEncoder_decrypt (paramsEncoder_encrypt s) = s \<longleftrightarrow> (\<forall>c \<in> set s. c < 256)"
  unfolding paramsEncoder_decrypt_def paramsEncoder_encrypt_def
  using paramsEncoder_key_bytes by (rule decrypt_encrypt_iff)

theorem paramsEncoder_roundtrip_witness:
  "paramsEncoder_decrypt (paramsEncoder_encrypt (str ''{\"auth\":\"secure\"}'')) = str ''{\"auth\":\"secure\"}''"
  by (rule paramsEncoder_roundtrip [THEN iffD2]) (simp add: str_def)

text \<open>
  The JSON text \<^verbatim>\<open>{"p":"\<close> followed by the euro sign (code unit 8364) and \<^verbatim>\<open>"}\<close>, which is what
  \<^verbatim>\<open>JSON.stringify\<close> writes for an object holding that character, comes back with the code
  unit 172 in its place.
\<close>

theorem paramsEncoder_roundtrip_fails:
  "paramsEncoder_decrypt (paramsEncoder_encrypt (str ''{\"p\":\"'' @ [8364] @ str ''\"}''))
     = str ''{\"p\":\"'' @ [172] @ str ''\"}''
   \<and> paramsEncoder_decrypt (paramsEncoder_encrypt (str ''{\"p\":\"'' @ [8364] @ str ''\"}''))
     \<noteq> str ''{\"p\":\"'' @ [8364] @ str ''\"}''"
  by (simp add: paramsEncoder_decrypt_def paramsEncoder_encrypt_def paramsEncoder_key_def str_def
      decrypt_encrypt applyKeyToChar_def textToChars_def fromCharCode_def)

section \<open>Properties of the server\<close>

lemma map_of_assign: "map_of (assign kvs key v) = (map_of kvs)(key \<mapsto> v)"
  by (induction kvs key v rule: assign.induct) auto

lemma get_prop_stamp:
  "get_prop (stamp (JObj kvs)) key = (if key = ''jsonrpc'' then JStr ''2.0'' else get_prop (JObj kvs) key)"
  by (simp add: map_of_assign)

lemma foldl_send_each:
  "foldl (send_each sock len) (stamped, out) ms =
     (stamped @ map stamp ms, if len = 1 then out @ map (\<lambda>m. SockSend sock (stamp m)) ms else out)"
  by (induction ms arbitrary: stamped out) (simp_all add: send_each_def Let_def)

lemma send_eq:
  "send sock message =
     [SockSend sock (if length (makeArray message) = 1 then stamp (hd (makeArray message))
                     else JArr (map stamp (makeArray message)))]"
proof (cases "length (makeArray message) = 1")
  case True
  then obtain m where "makeArray message = [m]"
    by (cases "makeArray message") auto
  then show ?thesis by (simp add: send_def foldl_send_each)
next
  case False
  then show ?thesis by (simp add: send_def foldl_send_each)
qed

lemma send_object: "send sock (JObj kvs) = [SockSend sock (JObj (assign kvs ''jsonrpc'' (JStr ''2.0'')))]"
  by (simp add: send_eq)

lemma emit_eq:
  "emit sock i data = [SockSend sock (JObj [(''result'', data), (''id'', i), (''jsonrpc'', JStr ''2.0'')])]"
  by (simp add: emit_def send_object)

lemma handleRequest_registered:
  "handleRequest (socks(client \<mapsto> sock)) methods emitters client (Some v) =
     (case asyncForEach (the (parseRequest (Some v))) (dispatch methods emitters sock client) \<lparr>responses = [], sent = []\<rparr> of
        (st, Some e) \<Rightarrow> (sent st, Some e)
      | (st, None) \<Rightarrow> (sent st @ send sock (JArr (responses st)), None))"
  by (simp add: handleRequest_def parseRequest_def Let_def)

text \<open>
  C7. Every send stamps \<^verbatim>\<open>jsonrpc: "2.0"\<close> on every message, keeps its other properties, and
  hands the socket one payload: the bare message when there is exactly one, the array of
  all messages in order otherwise. No message gives the empty array, and a batch that
  collects no response (a notification for a name nothing is registered under) still sends it.
\<close>

theorem send_wire_form:
  "send sock message =
     [SockSend sock (if length (makeArray message) = 1 then stamp (hd (makeArray message))
                     else JArr (map stamp (makeArray message)))]
   \<and> get_prop (stamp (JObj kvs)) key = (if key = ''jsonrpc'' then JStr ''2.0'' else get_prop (JObj kvs) key)
   \<and> send sock (JArr []) = [SockSend sock (JArr [])]
   \<and> send sock (JArr [JObj kvs]) = [SockSend sock (stamp (JObj kvs))]
   \<and> send sock (JArr (m1 # m2 # ms)) = [SockSend sock (JArr (stamp m1 # stamp m2 # map stamp ms))]
   \<and> handleRequest (socks(client \<mapsto> sock)) Map.empty Map.empty client
        (Some (JObj [(''jsonrpc'', JStr ''2.0''), (''method'', JStr name)]))
      = ([SockSend sock (JArr [])], None)"
proof -
  have "handleRequest (socks(client \<mapsto> sock)) Map.empty Map.empty client
        (Some (JObj [(''jsonrpc'', JStr ''2.0''), (''method'', JStr name)]))
      = ([SockSend sock (JArr [])], None)"
    by (simp add: handleRequest_registered parseRequest_def classify_def dispatch_def send_eq)
  then show ?thesis
    using send_eq [of sock message] get_prop_stamp [of kvs key] by (simp add: send_eq)
qed

text \<open>
  C8. For a frame that \<^verbatim>\<open>JSON.parse\<close> rejects, on a registered connection, the server sends
  the one Response \<^verbatim>\<open>{id: null, error: {code: -32700, message: "Parse error"}}\<close> with the
  protocol tag, and does nothing else: no handler is looked up or called, and the promise
  does not reject.
\<close>

theorem parse_error_response:
  "handleRequest (socks(client \<mapsto> sock)) methods emitters client None =
     ([SockSend sock
         (JObj [(''id'', JNull),
                (''error'', JObj [(''code'', JNum (- 32700)), (''message'', JStr ''Parse error'')]),
                (''jsonrpc'', JStr ''2.0'')])],
      None)"
  by (simp add: handleRequest_def parseRequest_def send_object)

text \<open>
  C9. A request for a name without a trailing colon that no method is registered under
  adds the Response \<^verbatim>\<open>{error: {code: -32601, message: "Method not found"}, id}\<close> when it has
  an id and adds nothing when it has none. Sent alone, such a request is answered by that
  one Response, and without an id by the empty batch.
\<close>

theorem method_not_found:
  assumes "\<not> endsWith_colon name" and "methods name = None"
  shows "dispatch methods emitters sock client (Request name i p) st =
           (if i \<noteq> JUndefined
            then st\<lparr>responses := responses st @
                   [JObj [(''error'', JObj [(''code'', JNum (- 32601)), (''message'', JStr ''Method not found'')]),
                          (''id'', i)]]\<rparr>
            else st, None)
         \<and> handleRequest (socks(client \<mapsto> sock)) methods emitters client
              (Some (JObj [(''jsonrpc'', JStr ''2.0''), (''method'', JStr name), (''id'', JStr ident)]))
            = ([SockSend sock
                 (JObj [(''error'', JObj [(''code'', JNum (- 32601)), (''message'', JStr ''Method not found'')]),
                        (''id'', JStr ident), (''jsonrpc'', JStr ''2.0'')])], None)
         \<and> handleRequest (socks(client \<mapsto> sock)) methods emitters client
              (Some (JObj [(''jsonrpc'', JStr ''2.0''), (''method'', JStr name)]))
            = ([SockSend sock (JArr [])], None)"
  using assms
  by (simp add: handleRequest_registered parseRequest_def classify_def dispatch_def error_response_def send_eq)

theorem method_not_found_witness:
  "dispatch Map.empty Map.empty \<lparr>conn = 1, isClosed = False\<rparr> ''c1'' (Request ''nope'' (JStr ''abc'') JNull)
       \<lparr>responses = [], sent = []\<rparr> =
     (\<lparr>responses = [JObj [(''error'', JObj [(''code'', JNum (- 32601)), (''message'', JStr ''Method not found'')]),
                          (''id'', JStr ''abc'')]], sent = []\<rparr>, None)
   \<and> handleRequest [''c1'' \<mapsto> \<lparr>conn = 1, isClosed = False\<rparr>] Map.empty Map.empty ''c1''
        (Some (JObj [(''jsonrpc'', JStr ''2.0''), (''method'', JStr ''nope''), (''id'', JStr ''abc'')]))
      = ([SockSend \<lparr>conn = 1, isClosed = False\<rparr>
           (JObj [(''error'', JObj [(''code'', JNum (- 32601)), (''message'', JStr ''Method not found'')]),
                  (''id'', JStr ''abc''), (''jsonrpc'', JStr ''2.0'')])], None)
   \<and> handleRequest [''c1'' \<mapsto> \<lparr>conn = 1, isClosed = False\<rparr>] Map.empty Map.empty ''c1''
        (Some (JObj [(''jsonrpc'', JStr ''2.0''), (''method'', JStr ''nope'')]))
      = ([SockSend \<lparr>conn = 1, isClosed = False\<rparr> (JArr [])], None)"
  using method_not_found [of "''nope''" Map.empty Map.empty "\<lparr>conn = 1, isClosed = False\<rparr>" "''c1''"
      "JStr ''abc''" JNull "\<lparr>responses = [], sent = []\<rparr>" Map.empty "''abc''"]
  by (simp add: endsWith_colon_def)

lemma asyncForEach_append:
  "asyncForEach (xs @ ys) cb s =
     (case asyncForEach xs cb s of
        (s', Some e) \<Rightarrow> (s', Some e)
      | (s', None) \<Rightarrow> asyncForEach ys cb s')"
  by (induction xs arbitrary: s) (auto split: prod.splits option.splits)

lemma dispatch_sent:
  assumes "dispatch methods emitters sock client r st = (st', res)"
    and "\<forall>eff \<in> set (sent st). \<exists>i d. [eff] = emit sock i d"
  shows "\<forall>eff \<in> set (sent st'). \<exists>i d. [eff] = emit sock i d"
proof (cases r)
  case Invalid
  then show ?thesis using assms by (auto simp: dispatch_def)
next
  case (Request m i p)
  show ?thesis
  proof (cases "endsWith_colon m \<and> emitters m \<noteq> None")
    case False
    then have "sent st' = sent st"
      using assms(1) Request
      by (auto simp: dispatch_def split: if_splits option.splits sum.splits)
    then show ?thesis using assms(2) by simp
  next
    case True
    then obtain h where h: "emitters m = Some h" by auto
    obtain emitted thrown where e: "h p client = (emitted, thrown)" by (cases "h p client")
    have "sent st' = sent st @ concat (map (emit sock i) emitted)"
      using assms(1) Request True h e by (auto simp: dispatch_def)
    moreover have "\<forall>eff \<in> set (concat (map (emit sock i) emitted)). \<exists>i d. [eff] = emit sock i d"
      by (auto simp: emit_eq)
    ultimately show ?thesis using assms(2) by auto
  qed
qed

lemma asyncForEach_sent:
  assumes "asyncForEach rs (dispatch methods emitters sock client) st = (st', res)"
    and "\<forall>eff \<in> set (sent st). \<exists>i d. [eff] = emit sock i d"
  shows "\<forall>eff \<in> set (sent st'). \<exists>i d. [eff] = emit sock i d"
  using assms
proof (induction rs arbitrary: st)
  case Nil
  then show ?case by simp
next
  case (Cons r rs)
  obtain st1 r1 where d: "dispatch methods emitters sock client r st = (st1, r1)"
    by (cases "dispatch methods emitters sock client r st")
  have s1: "\<forall>eff \<in> set (sent st1). \<exists>i d. [eff] = emit sock i d"
    using dispatch_sent [OF d Cons.prems(2)] .
  show ?case
  proof (cases r1)
    case None
    then have "asyncForEach rs (dispatch methods emitters sock client) st1 = (st', res)"
      using Cons.prems(1) d by simp
    then show ?thesis using Cons.IH s1 by blast
  next
    case (Some e)
    then have "st' = st1" using Cons.prems(1) d by simp
    then show ?thesis using s1 by simp
  qed
qed

text \<open>
  C1, as the code has it. When the handler of a method request fails, the loop ends at that
  request: \<^verbatim>\<open>handleRequest\<close> rejects with the handler's error, whether or not the request
  has an id; the requests after it are not looked at; and the batch of Responses collected so
  far is not sent. All that has gone out is what emitters of earlier requests emitted, each
  a single Response of its own.
\<close>

theorem handler_failure_aborts_batch:
  assumes "parseRequest raw = Some (pre @ Request name i p # post)"
    and "asyncForEach pre (dispatch methods emitters sock client) \<lparr>responses = [], sent = []\<rparr> = (st, None)"
    and "\<not> endsWith_colon name"
    and "methods name = Some handler"
    and "handler p client = Inl e"
  shows "handleRequest (socks(client \<mapsto> sock)) methods emitters client raw = (sent st, Some e)
         \<and> (\<forall>eff \<in> set (sent st). \<exists>i d. [eff] = emit sock i d)"
proof -
  have "dispatch methods emitters sock client (Request name i p) st = (st, Some e)"
    using assms(3-5) by (simp add: dispatch_def)
  then have "asyncForEach (pre @ Request name i p # post) (dispatch methods emitters sock client)
               \<lparr>responses = [], sent = []\<rparr> = (st, Some e)"
    using assms(2) by (simp add: asyncForEach_append)
  then have "handleRequest (socks(client \<mapsto> sock)) methods emitters client raw = (sent st, Some e)"
    using assms(1) by (simp add: handleRequest_def)
  moreover have "\<forall>eff \<in> set (sent st). \<exists>i d. [eff] = emit sock i d"
    using asyncForEach_sent [OF assms(2)] by simp
  ultimately show ?thesis by simp
qed

theorem handler_failure_aborts_batch_witness:
  "handleRequest [''c1'' \<mapsto> \<lparr>conn = 1, isClosed = False\<rparr>] [''boom'' \<mapsto> failing_method] Map.empty ''c1''
     (Some (JArr [JObj [(''jsonrpc'', JStr ''2.0''), (''method'', JStr ''nope''), (''id'', JStr ''0'')],
                  JObj [(''jsonrpc'', JStr ''2.0''), (''method'', JStr ''boom'')],
                  JObj [(''jsonrpc'', JStr ''2.0''), (''method'', JStr ''nope''), (''id'', JStr ''2'')]]))
   = ([], Some (JStr ''boom''))"
proof -
  let ?st = "\<lparr>responses = [error_response (JStr ''0'') (- 32601) ''Method not found''], sent = []\<rparr>"
  have "handleRequest (Map.empty(''c1'' \<mapsto> \<lparr>conn = 1, isClosed = False\<rparr>)) [''boom'' \<mapsto> failing_method] Map.empty ''c1''
     (Some (JArr [JObj [(''jsonrpc'', JStr ''2.0''), (''method'', JStr ''nope''), (''id'', JStr ''0'')],
                  JObj [(''jsonrpc'', JStr ''2.0''), (''method'', JStr ''boom'')],
                  JObj [(''jsonrpc'', JStr ''2.0''), (''method'', JStr ''nope''), (''id'', JStr ''2'')]]))
     = (sent ?st, Some (JStr ''boom''))
     \<and> (\<forall>eff \<in> set (sent ?st). \<exists>i d. [eff] = emit \<lparr>conn = 1, isClosed = False\<rparr> i d)"
    by (rule handler_failure_aborts_batch
          [where pre = "[Request ''nope'' (JStr ''0'') JUndefined]" and name = "''boom''" and i = JUndefined
             and p = JUndefined and post = "[Request ''nope'' (JStr ''2'') JUndefined]"
             and handler = failing_method])
       (simp_all add: parseRequest_def classify_def dispatch_def endsWith_colon_def failing_method_def)
  then show ?thesis by simp
qed

theorem handler_failure_not_contained:
  "handleRequest [''c1'' \<mapsto> \<lparr>conn = 1, isClosed = False\<rparr>] [''boom'' \<mapsto> failing_method] Map.empty ''c1''
     (Some (JArr [JObj [(''jsonrpc'', JStr ''2.0''), (''method'', JStr ''boom''), (''id'', JStr ''1'')],
                  JObj [(''jsonrpc'', JStr ''2.0''), (''method'', JStr ''nope''), (''id'', JStr ''2'')]]))
   = ([], Some (JStr ''boom''))"
  by (simp add: handleRequest_def parseRequest_def classify_def dispatch_def endsWith_colon_def
      failing_method_def)

text \<open>
  C3, as the code has it. The callback given to an emitter hands one Response with the
  request's id and the protocol tag to the socket's \<^verbatim>\<open>send\<close> each time it is called, for
  a closed socket as for an open one: it reads neither the socket's state nor the table of
  connections.
\<close>

theorem emit_always_sends:
  "emit sock i data = [SockSend sock (JObj [(''result'', data), (''id'', i), (''jsonrpc'', JStr ''2.0'')])]
   \<and> emit (sock\<lparr>isClosed := True\<rparr>) i data
       = [SockSend (sock\<lparr>isClosed := True\<rparr>) (JObj [(''result'', data), (''id'', i), (''jsonrpc'', JStr ''2.0'')])]"
  by (simp add: emit_def send_def send_each_def Let_def)

theorem emit_after_close_sends:
  "emit \<lparr>conn = 1, isClosed = True\<rparr> (JStr ''7'') (JNum 1)
     = [SockSend \<lparr>conn = 1, isClosed = True\<rparr>
          (JObj [(''result'', JNum 1), (''id'', JStr ''7''), (''jsonrpc'', JStr ''2.0'')])]"
  by (simp add: emit_def send_def send_each_def Let_def)

text \<open>
  Two remarks on the dispatch. An emitter registered as \<open>name\<close> is the one a request for
  \<open>name\<close> with the colon runs, and its emissions go out before the batch. A batch in which
  no handler fails is answered by one array, in the order of the requests, with nothing for a
  notification.
\<close>

lemma registered_emitter_runs:
  "dispatch methods (register_emitter emitters name h) sock client (Request (name @ '':'') i p) st =
     (st\<lparr>sent := sent st @ concat (map (emit sock i) (fst (h p client)))\<rparr>, snd (h p client))"
  by (simp add: dispatch_def register_emitter_def endsWith_colon_def split: prod.splits)

lemma batch_without_failure:
  "handleRequest [''c1'' \<mapsto> \<lparr>conn = 1, isClosed = False\<rparr>] (register_method Map.empty ''echo'' echo_method)
     Map.empty ''c1''
     (Some (JArr [JObj [(''jsonrpc'', JStr ''2.0''), (''method'', JStr ''echo''), (''id'', JStr ''1''), (''params'', JNum 5)],
                  JObj [(''jsonrpc'', JStr ''2.0''), (''method'', JStr ''echo''), (''params'', JNum 6)],
                  JObj [(''jsonrpc'', JStr ''2.0''), (''method'', JStr ''nope''), (''id'', JStr ''2'')]]))
   = ([SockSend \<lparr>conn = 1, isClosed = False\<rparr>
         (JArr [JObj [(''id'', JStr ''1''), (''result'', JNum 5), (''jsonrpc'', JStr ''2.0'')],
                JObj [(''error'', JObj [(''code'', JNum (- 32601)), (''message'', JStr ''Method not found'')]),
                      (''id'', JStr ''2''), (''jsonrpc'', JStr ''2.0'')]])],
      None)"
  by (simp add: handleRequest_def parseRequest_def classify_def dispatch_def endsWith_colon_def
      register_method_def echo_method_def error_response_def send_def send_each_def Let_def)

section \<open>Properties of the client\<close>

lemma sendAllMessages_listeners [simp]: "listeners (fst (sendAllMessages c)) = listeners c"
  by (simp add: sendAllMessages_def split: option.splits)

lemma notifier_listeners [simp]: "listeners (fst (newOutgoingMessageNotifier isOpen c)) = listeners c"
  by (simp add: newOutgoingMessageNotifier_def)

lemma sendMessage_listeners:
  "sendMessage isOpen m ps ident c = Inr r \<Longrightarrow> listeners (fst r) = listeners c"
  by (auto simp: sendMessage_def Let_def split: option.splits)

lemma sendMessage_closed: "sendMessage isOpen m ps ident c = Inl e \<longleftrightarrow> outgoing c = None \<and> e = closed_error"
  by (auto simp: sendMessage_def Let_def split: option.splits)

lemma call_listeners:
  "listeners (fst (call isOpen ident m ps c)) = (listeners c)(ident \<mapsto> CallCb (outgoing c = None))"
  by (cases "outgoing c") (simp_all add: call_def sendMessage_def Let_def)

lemma listen_listeners: "listeners (fst (listen isOpen ident m lo c)) = (listeners c)(ident \<mapsto> ListenCb lo)"
  by (auto simp: listen_def Let_def split: sum.splits dest: sendMessage_listeners)

lemma notify_listeners: "listeners (fst (notify isOpen m ps c)) = listeners c"
  by (auto simp: notify_def split: sum.splits dest: sendMessage_listeners)

lemma handleResponse_other_key:
  assumes "res_id res \<noteq> JStr key"
  shows "listeners (fst (fst (handleResponse options res c))) key = listeners c key"
  using assms
  by (auto simp: handleResponse_def invoke_def split: jsval.splits option.splits callback.splits)

lemma handleResponse_keeps_listen:
  assumes "listeners c key = Some (ListenCb lo)"
  shows "listeners (fst (fst (handleResponse options res c))) key = Some (ListenCb lo)"
  using assms
  by (auto simp: handleResponse_def invoke_def split: jsval.splits option.splits callback.splits)

lemma forEach_response_Cons:
  "fst (forEach_response options (res # rs) c) =
     (case snd (handleResponse options res c) of
        Some e \<Rightarrow> fst (fst (handleResponse options res c))
      | None \<Rightarrow> fst (forEach_response options rs (fst (fst (handleResponse options res c)))))"
  by (auto split: prod.splits option.splits)

lemma forEach_response_keeps_listen:
  assumes "listeners c key = Some (ListenCb lo)"
  shows "listeners (fst (forEach_response options rs c)) key = Some (ListenCb lo)"
  using assms
proof (induction rs arbitrary: c)
  case Nil
  then show ?case by simp
next
  case (Cons res rs)
  have "listeners (fst (fst (handleResponse options res c))) key = Some (ListenCb lo)"
    using Cons.prems by (rule handleResponse_keeps_listen)
  then show ?case
    using Cons.IH by (simp only: forEach_response_Cons split: option.split) simp
qed

lemma forEach_response_other_keys:
  assumes "\<forall>r \<in> set rs. res_id r \<noteq> JStr key"
  shows "listeners (fst (forEach_response options rs c)) key = listeners c key"
  using assms
proof (induction rs arbitrary: c)
  case Nil
  then show ?case by simp
next
  case (Cons res rs)
  have "listeners (fst (fst (handleResponse options res c))) key = listeners c key"
    using Cons.prems by (simp add: handleResponse_other_key)
  moreover have "listeners (fst (forEach_response options rs c')) key = listeners c' key" for c'
    using Cons.IH Cons.prems by simp
  ultimately show ?case
    by (simp only: forEach_response_Cons split: option.split) simp
qed

lemma fst_run_Cons: "fst (run options (a # as) c) = fst (run options as (fst (step options a c)))"
  by (auto split: prod.splits)

lemma step_keeps_listen:
  assumes "listeners c key = Some (ListenCb lo)" and "\<not> registers key a"
  shows "listeners (fst (step options a c)) key = Some (ListenCb lo)"
proof (cases a)
  case (Call b i m ps)
  then show ?thesis using assms by (simp add: call_listeners)
next
  case (Notify b m ps)
  then show ?thesis using assms by (simp add: notify_listeners)
next
  case (Listen b i m l)
  then show ?thesis using assms by (simp add: listen_listeners)
next
  case (Close b)
  then show ?thesis using assms by (simp add: close_def)
next
  case OnOpen
  have "listeners (fst (onopen c)) = listeners c"
    by (simp add: onopen_def sendAllMessages_def split: option.splits)
  then show ?thesis using OnOpen assms by simp
next
  case OnError
  then show ?thesis using assms by (simp add: onerror_def)
next
  case (OnMessage d)
  then show ?thesis
    using forEach_response_keeps_listen [OF assms(1)] assms(1)
    by (simp add: onmessage_def split: option.splits)
next
  case RetryTimer
  then show ?thesis using assms by (simp add: retry_timer_def tryToConnect_def)
qed

lemma run_keeps_listen:
  assumes "listeners c key = Some (ListenCb lo)" and "\<forall>a \<in> set as. \<not> registers key a"
  shows "listeners (fst (run options as c)) key = Some (ListenCb lo)"
  using assms
proof (induction as arbitrary: c)
  case Nil
  then show ?case by simp
next
  case (Cons a as)
  have "listeners (fst (step options a c)) key = Some (ListenCb lo)"
    using step_keeps_listen Cons.prems by simp
  then show ?case
    using Cons.IH Cons.prems(2) by (subst fst_run_Cons) simp
qed

lemma step_keeps_entry:
  assumes "\<not> registers key a" and "\<not> answers key a"
  shows "listeners (fst (step options a c)) key = listeners c key"
proof (cases a)
  case (Call b i m ps)
  then show ?thesis using assms by (simp add: call_listeners)
next
  case (Notify b m ps)
  then show ?thesis by (simp add: notify_listeners)
next
  case (Listen b i m l)
  then show ?thesis using assms by (simp add: listen_listeners)
next
  case (Close b)
  then show ?thesis by (simp add: close_def)
next
  case OnOpen
  have "listeners (fst (onopen c)) = listeners c"
    by (simp add: onopen_def sendAllMessages_def split: option.splits)
  then show ?thesis using OnOpen by simp
next
  case OnError
  then show ?thesis by (simp add: onerror_def)
next
  case (OnMessage d)
  show ?thesis
  proof (cases "parseResponse d")
    case None
    then show ?thesis using OnMessage by (simp add: onmessage_def)
  next
    case (Some rs)
    then have "\<forall>r \<in> set rs. res_id r \<noteq> JStr key"
      using assms(2) OnMessage by (auto simp: image_iff)
    then show ?thesis
      using OnMessage Some forEach_response_other_keys [of rs key options c] by (simp add: onmessage_def)
  qed
next
  case RetryTimer
  then show ?thesis by (simp add: retry_timer_def tryToConnect_def)
qed

lemma run_keeps_entry:
  assumes "\<forall>a \<in> set as. \<not> registers key a \<and> \<not> answers key a"
  shows "listeners (fst (run options as c)) key = listeners c key"
  using assms
proof (induction as arbitrary: c)
  case Nil
  then show ?case by simp
next
  case (Cons a as)
  have "listeners (fst (step options a c)) key = listeners c key"
    using step_keeps_entry Cons.prems by simp
  then show ?case
    using Cons.IH [of "fst (step options a c)"] Cons.prems by (subst fst_run_Cons) simp
qed

lemma handleResponse_throws:
  "snd (handleResponse options res c) = (if throws options res then Some (Value (res_error res)) else None)"
  by (auto simp: handleResponse_def throws_def split: jsval.splits option.splits)

lemma forEach_response_append:
  assumes "\<forall>p \<in> set xs. \<not> throws options p"
  shows "forEach_response options (xs @ ys) c =
           (case forEach_response options xs c of
              (c1, es1) \<Rightarrow> (case forEach_response options ys c1 of (c2, es2) \<Rightarrow> (c2, es1 @ es2)))"
  using assms
proof (induction xs arbitrary: c)
  case Nil
  then show ?case by (simp split: prod.splits)
next
  case (Cons x xs)
  obtain c' es where h: "handleResponse options x c = ((c', es), None)"
    using handleResponse_throws [of options x c] Cons.prems
    by (cases "handleResponse options x c") auto
  show ?case
    using Cons.IH [of c'] Cons.prems h by (simp split: prod.splits)
qed

lemma collect_acc: "collect objs acc = map_option (\<lambda>rs. acc @ rs) (collect objs [])"
proof (induction objs arbitrary: acc)
  case Nil
  then show ?case by simp
next
  case (Cons obj objs)
  let ?r = "\<lparr>res_id = get_prop obj ''id'', res_result = get_prop obj ''result'',
              res_error = get_prop obj ''error''\<rparr>"
  have A: "collect objs (acc @ [?r]) = map_option (\<lambda>rs. (acc @ [?r]) @ rs) (collect objs [])"
    by (rule Cons.IH)
  have B: "collect objs [?r] = map_option (\<lambda>rs. [?r] @ rs) (collect objs [])"
    by (rule Cons.IH)
  have C: "collect objs acc = map_option (\<lambda>rs. acc @ rs) (collect objs [])"
    by (rule Cons.IH)
  show ?case
  proof (cases "hasOwnProperty obj ''id''")
    case None
    then show ?thesis by simp
  next
    case (Some h)
    show ?thesis
    proof (cases "h \<and> (hasOwnProperty obj ''result'' = Some True \<or> truthy (get_prop obj ''error''))")
      case True
      then have e: "collect (obj # objs) acc = collect objs (acc @ [?r])"
        "collect (obj # objs) [] = collect objs [?r]"
        using Some by simp_all
      show ?thesis
        unfolding e A B by (cases "collect objs []") simp_all
    next
      case False
      then have e: "collect (obj # objs) acc = collect objs acc"
        "collect (obj # objs) [] = collect objs []"
        using Some by auto
      show ?thesis
        unfolding e by (rule C)
    qed
  qed
qed

lemma collect_append:
  "collect (xs @ ys) acc = (case collect xs acc of None \<Rightarrow> None | Some rs \<Rightarrow> collect ys rs)"
  by (induction xs arbitrary: acc) (auto split: option.splits)

lemma parse_batch:
  assumes "collect xs [] = Some pre" and "collect ys [] = Some post"
    and "map_of kvs ''hasOwnProperty'' = None" and "map_of kvs ''id'' = Some i"
    and "map_of kvs ''result'' \<noteq> None \<or> truthy (get_prop (JObj kvs) ''error'')"
  shows "parseResponse (Text (Some (JArr (xs @ JObj kvs # ys)))) =
           Some (pre @ \<lparr>res_id = i, res_result = get_prop (JObj kvs) ''result'',
                         res_error = get_prop (JObj kvs) ''error''\<rparr> # post)"
proof -
  have "collect (JObj kvs # ys) pre =
          collect ys (pre @ [\<lparr>res_id = i, res_result = get_prop (JObj kvs) ''result'',
                               res_error = get_prop (JObj kvs) ''error''\<rparr>])"
    using assms(3-5) by auto
  also have "\<dots> = Some (pre @ \<lparr>res_id = i, res_result = get_prop (JObj kvs) ''result'',
                                   res_error = get_prop (JObj kvs) ''error''\<rparr> # post)"
    using assms(2) by (subst collect_acc) simp
  finally show ?thesis
    using assms(1) by (simp add: parseResponse_def collect_append)
qed

lemma parse_batch_skip:
  assumes "map_of kvs ''hasOwnProperty'' = None" and "map_of kvs ''result'' = None"
    and "\<not> truthy (get_prop (JObj kvs) ''error'')"
  shows "parseResponse (Text (Some (JArr (xs @ JObj kvs # ys)))) = parseResponse (Text (Some (JArr (xs @ ys))))"
proof -
  have "collect (JObj kvs # ys) acc = collect ys acc" for acc
    using assms by simp
  then show ?thesis
    by (simp add: parseResponse_def collect_append split: option.splits)
qed

lemma onmessage_batch:
  assumes "collect xs [] = Some pre" and "collect ys [] = Some post"
    and "map_of kvs ''hasOwnProperty'' = None" and "map_of kvs ''id'' = Some i"
    and "map_of kvs ''result'' \<noteq> None \<or> truthy (get_prop (JObj kvs) ''error'')"
    and "\<forall>p \<in> set pre. \<not> throws options p"
    and "handleResponse options \<lparr>res_id = i, res_result = get_prop (JObj kvs) ''result'',
           res_error = get_prop (JObj kvs) ''error''\<rparr> (fst (forEach_response options pre c)) = ((c', es), None)"
  shows "onmessage options (Text (Some (JArr (xs @ JObj kvs # ys)))) c =
           (case forEach_response options pre c of
              (c1, es1) \<Rightarrow> (case forEach_response options post c' of (c2, es2) \<Rightarrow> (c2, es1 @ es @ es2)))"
proof -
  let ?r = "\<lparr>res_id = i, res_result = get_prop (JObj kvs) ''result'', res_error = get_prop (JObj kvs) ''error''\<rparr>"
  obtain c1 es1 where p: "forEach_response options pre c = (c1, es1)"
    by (cases "forEach_response options pre c")
  obtain c2 es2 where q: "forEach_response options post c' = (c2, es2)"
    by (cases "forEach_response options post c'")
  have h: "handleResponse options ?r c1 = ((c', es), None)"
    using assms(7) p by simp
  have "forEach_response options (?r # post) c1 = (c2, es @ es2)"
    using h q by simp
  then have "forEach_response options (pre @ ?r # post) c = (c2, es1 @ es @ es2)"
    using p by (simp add: forEach_response_append [OF assms(6)])
  then have "onmessage options (Text (Some (JArr (xs @ JObj kvs # ys)))) c = (c2, es1 @ es @ es2)"
    by (simp only: onmessage_def parse_batch [OF assms(1-5)] option.case)
  then show ?thesis
    using p q by simp
qed

lemma listen_fires:
  assumes "listeners c key = Some (ListenCb lo)"
  shows "handleResponse options \<lparr>res_id = JStr key, res_result = r, res_error = e\<rparr> c =
           ((c, (if options_errorHandler lo \<and> truthy e then [ErrorHandlerCalled key e] else [])
                @ (if options_listener lo \<and> truthy (nullish_null r) then [ListenerCalled key (nullish_null r)] else [])),
            None)"
  using assms by (simp add: handleResponse_def invoke_def)

lemma call_settles:
  assumes "listeners c key = Some (CallCb False)" and "r \<noteq> JUndefined"
  shows "handleResponse options \<lparr>res_id = JStr key, res_result = r, res_error = e\<rparr> c =
           ((c\<lparr>listeners := (listeners c)(key := None)\<rparr>,
             [if truthy e then Rejected key (Value e) else Resolved key r]), None)"
proof -
  have "nullish_null r = r" using assms(2) by (cases r) simp_all
  then show ?thesis using assms by (simp add: handleResponse_def invoke_def)
qed

lemma onmessage_bare:
  "onmessage options (Text (Some (JObj kvs))) c = onmessage options (Text (Some (JArr [JObj kvs]))) c"
  by (simp add: onmessage_def parseResponse_def)

lemma three_emits:
  assumes "listeners c key = Some (ListenCb lo)" and "options_listener lo"
  shows "run options (frames (concat (map (emit sock (JStr key)) [JNum 1, JNum 2, JNum 3]))) c =
           (c, [ListenerCalled key (JNum 1), ListenerCalled key (JNum 2), ListenerCalled key (JNum 3)])"
  using assms
  by (simp add: emit_def send_def send_each_def Let_def onmessage_def parseResponse_def
      handleResponse_def invoke_def)

text \<open>
  C2, as the code has it. \<^verbatim>\<open>listen\<close> stores its closure under the id, and the closure stays
  there through every later action that does not store another closure under the same id.
  A Response with that id calls it once, wherever the Response stands in its frame, and the
  rest of the frame is handled after it, provided the frame is read at all (the elements
  before and after it pass \<^verbatim>\<open>parseResponse\<close>) and no Response before it in the frame is an
  untargeted error that throws; a single object is the frame of one element. The Responses an
  emitter produces with \<^verbatim>\<open>emit(1)\<close>, \<^verbatim>\<open>emit(2)\<close>, \<^verbatim>\<open>emit(3)\<close> call the listener three times, in
  that order. The closure that \<^verbatim>\<open>call\<close> stores is gone after the first Response with its id.
\<close>

theorem listen_is_persistent:
  assumes "\<forall>a \<in> set as. \<not> registers key a"
    and "s = fst (run options as (fst (listen isOpen key m lo c)))"
  shows "listeners s key = Some (ListenCb lo)
    \<and> (collect xs [] = Some pre \<and> collect ys [] = Some post \<and> (\<forall>p \<in> set pre. \<not> throws options p)
        \<and> map_of kvs ''hasOwnProperty'' = None \<and> map_of kvs ''id'' = Some (JStr key)
        \<and> (map_of kvs ''result'' \<noteq> None \<or> truthy (get_prop (JObj kvs) ''error''))
       \<longrightarrow> onmessage options (Text (Some (JArr (xs @ JObj kvs # ys)))) s =
             (case forEach_response options pre s of
                (c1, es1) \<Rightarrow>
                  (case forEach_response options post c1 of
                     (c2, es2) \<Rightarrow>
                       (c2, es1
                            @ ((if options_errorHandler lo \<and> truthy (get_prop (JObj kvs) ''error'')
                                then [ErrorHandlerCalled key (get_prop (JObj kvs) ''error'')] else [])
                               @ (if options_listener lo \<and> truthy (nullish_null (get_prop (JObj kvs) ''result''))
                                  then [ListenerCalled key (nullish_null (get_prop (JObj kvs) ''result''))] else []))
                            @ es2))))
    \<and> onmessage options (Text (Some (JObj kvs))) s = onmessage options (Text (Some (JArr [JObj kvs]))) s
    \<and> (options_listener lo \<longrightarrow>
         run options (frames (concat (map (emit sock (JStr key)) [JNum 1, JNum 2, JNum 3]))) s =
           (s, [ListenerCalled key (JNum 1), ListenerCalled key (JNum 2), ListenerCalled key (JNum 3)]))
    \<and> listeners (fst (call isOpen' key' m' ps c')) key' = Some (CallCb (outgoing c' = None))
    \<and> (res_id res' = JStr key' \<longrightarrow>
         listeners (fst (fst (handleResponse options res' (fst (call isOpen' key' m' ps c'))))) key' = None)"
proof -
  have s: "listeners s key = Some (ListenCb lo)"
    unfolding assms(2) using assms(1) by (intro run_keeps_listen) (simp_all add: listen_listeners)
  have batch: "onmessage options (Text (Some (JArr (xs @ JObj kvs # ys)))) s =
             (case forEach_response options pre s of
                (c1, es1) \<Rightarrow>
                  (case forEach_response options post c1 of
                     (c2, es2) \<Rightarrow>
                       (c2, es1
                            @ ((if options_errorHandler lo \<and> truthy (get_prop (JObj kvs) ''error'')
                                then [ErrorHandlerCalled key (get_prop (JObj kvs) ''error'')] else [])
                               @ (if options_listener lo \<and> truthy (nullish_null (get_prop (JObj kvs) ''result''))
                                  then [ListenerCalled key (nullish_null (get_prop (JObj kvs) ''result''))] else []))
                            @ es2)))"
    if h: "collect xs [] = Some pre" "collect ys [] = Some post" "\<forall>p \<in> set pre. \<not> throws options p"
      "map_of kvs ''hasOwnProperty'' = None" "map_of kvs ''id'' = Some (JStr key)"
      "map_of kvs ''result'' \<noteq> None \<or> truthy (get_prop (JObj kvs) ''error'')"
  proof -
    have k: "listeners (fst (forEach_response options pre s)) key = Some (ListenCb lo)"
      using s by (rule forEach_response_keeps_listen)
    show ?thesis
      using onmessage_batch [OF h(1,2,4,5,6,3) listen_fires [OF k]]
      by (simp split: prod.splits)
  qed
  have three: "run options (frames (concat (map (emit sock (JStr key)) [JNum 1, JNum 2, JNum 3]))) s =
           (s, [ListenerCalled key (JNum 1), ListenerCalled key (JNum 2), ListenerCalled key (JNum 3)])"
    if "options_listener lo"
    using s that by (rule three_emits)
  have gone: "listeners (fst (fst (handleResponse options res' (fst (call isOpen' key' m' ps c'))))) key' = None"
    if "res_id res' = JStr key'"
    using that by (simp add: handleResponse_def invoke_def call_listeners)
  show ?thesis
    using s batch three gone by (simp add: onmessage_bare call_listeners)
qed

theorem listen_is_persistent_witness:
  "listeners \<lparr>listeners = [''sub1'' \<mapsto> ListenCb \<lparr>options_params = JUndefined, options_listener = True, options_errorHandler = False\<rparr>],
              outgoing = Some [], retryCount = 1\<rparr> ''sub1''
     = Some (ListenCb \<lparr>options_params = JUndefined, options_listener = True, options_errorHandler = False\<rparr>)
   \<and> onmessage \<lparr>options_onGeneralError = False, options_retryCount = None, options_retryInterval = None\<rparr>
       (Text (Some (JArr [JObj [(''id'', JStr ''sub1''), (''result'', JNum 1)],
                          JObj [(''id'', JStr ''sub1''), (''result'', JNum 2)],
                          JObj [(''id'', JStr ''sub1''), (''result'', JNum 3)]])))
       \<lparr>listeners = [''sub1'' \<mapsto> ListenCb \<lparr>options_params = JUndefined, options_listener = True, options_errorHandler = False\<rparr>],
        outgoing = Some [], retryCount = 1\<rparr>
     = (\<lparr>listeners = [''sub1'' \<mapsto> ListenCb \<lparr>options_params = JUndefined, options_listener = True, options_errorHandler = False\<rparr>],
         outgoing = Some [], retryCount = 1\<rparr>,
        [ListenerCalled ''sub1'' (JNum 1), ListenerCalled ''sub1'' (JNum 2), ListenerCalled ''sub1'' (JNum 3)])
   \<and> run \<lparr>options_onGeneralError = False, options_retryCount = None, options_retryInterval = None\<rparr>
       (frames (concat (map (emit \<lparr>conn = 1, isClosed = False\<rparr> (JStr ''sub1'')) [JNum 1, JNum 2, JNum 3])))
       \<lparr>listeners = [''sub1'' \<mapsto> ListenCb \<lparr>options_params = JUndefined, options_listener = True, options_errorHandler = False\<rparr>],
        outgoing = Some [], retryCount = 1\<rparr>
     = (\<lparr>listeners = [''sub1'' \<mapsto> ListenCb \<lparr>options_params = JUndefined, options_listener = True, options_errorHandler = False\<rparr>],
         outgoing = Some [], retryCount = 1\<rparr>,
        [ListenerCalled ''sub1'' (JNum 1), ListenerCalled ''sub1'' (JNum 2), ListenerCalled ''sub1'' (JNum 3)])
   \<and> listeners (fst (fst (handleResponse \<lparr>options_onGeneralError = False, options_retryCount = None, options_retryInterval = None\<rparr>
        \<lparr>res_id = JStr ''call1'', res_result = JStr ''goodbye'', res_error = JUndefined\<rparr>
        (fst (call True ''call1'' ''hello'' JNull \<lparr>listeners = Map.empty, outgoing = Some [], retryCount = 0\<rparr>))))) ''call1''
     = None"
proof -
  let ?lo = "\<lparr>options_params = JUndefined, options_listener = True, options_errorHandler = False\<rparr>"
  let ?opts = "\<lparr>options_onGeneralError = False, options_retryCount = None, options_retryInterval = None\<rparr>"
  let ?c = "\<lparr>listeners = Map.empty, outgoing = Some [], retryCount = 0\<rparr>"
  let ?s = "\<lparr>listeners = [''sub1'' \<mapsto> ListenCb ?lo], outgoing = Some [], retryCount = 1\<rparr>"
  let ?as = "[OnMessage (Text (Some (JObj [(''result'', JNum 1), (''id'', JStr ''sub1''), (''jsonrpc'', JStr ''2.0'')]))),
              Notify True ''ping'' JNull, OnError, RetryTimer]"
  have a: "\<forall>a \<in> set ?as. \<not> registers ''sub1'' a" by simp
  have b: "?s = fst (run ?opts ?as (fst (listen True ''sub1'' ''hello'' ?lo ?c)))"
    by (simp add: listen_def sendMessage_def newOutgoingMessageNotifier_def sendAllMessages_def Let_def
        onmessage_def parseResponse_def handleResponse_def invoke_def notify_def onerror_def
        retries_exhausted_def retry_limit_def retry_timer_def tryToConnect_def)
  show ?thesis
    using listen_is_persistent [OF a b,
        where xs = "[JObj [(''id'', JStr ''sub1''), (''result'', JNum 1)]]"
          and pre = "[\<lparr>res_id = JStr ''sub1'', res_result = JNum 1, res_error = JUndefined\<rparr>]"
          and kvs = "[(''id'', JStr ''sub1''), (''result'', JNum 2)]"
          and ys = "[JObj [(''id'', JStr ''sub1''), (''result'', JNum 3)]]"
          and post = "[\<lparr>res_id = JStr ''sub1'', res_result = JNum 3, res_error = JUndefined\<rparr>]"
          and sock = "\<lparr>conn = 1, isClosed = False\<rparr>"
          and isOpen' = True and key' = "''call1''" and m' = "''hello''" and ps = JNull and c' = ?c
          and res' = "\<lparr>res_id = JStr ''call1'', res_result = JStr ''goodbye'', res_error = JUndefined\<rparr>"]
    by (simp add: throws_def handleResponse_def invoke_def)
qed

text \<open>
  The frame the server sends for a batch of an invalid element and a subscription's Response:
  with no \<^verbatim>\<open>onGeneralError\<close> the untargeted error is thrown and the Response after it does not
  reach the listener.
\<close>

theorem listener_skipped_after_untargeted_error:
  "onmessage \<lparr>options_onGeneralError = False, options_retryCount = None, options_retryInterval = None\<rparr>
     (Text (Some (JArr [JObj [(''id'', JNull),
                              (''error'', JObj [(''code'', JNum (- 32600)), (''message'', JStr ''Invalid Request'')]),
                              (''jsonrpc'', JStr ''2.0'')],
                        JObj [(''result'', JNum 1), (''id'', JStr ''sub1''), (''jsonrpc'', JStr ''2.0'')]])))
     (fst (listen True ''sub1'' ''hello''
             \<lparr>options_params = JUndefined, options_listener = True, options_errorHandler = False\<rparr>
             \<lparr>listeners = Map.empty, outgoing = Some [], retryCount = 0\<rparr>))
   = (fst (listen True ''sub1'' ''hello''
             \<lparr>options_params = JUndefined, options_listener = True, options_errorHandler = False\<rparr>
             \<lparr>listeners = Map.empty, outgoing = Some [], retryCount = 0\<rparr>),
      [Throw (Value (JObj [(''code'', JNum (- 32600)), (''message'', JStr ''Invalid Request'')]))])"
  by (simp add: listen_def sendMessage_def newOutgoingMessageNotifier_def sendAllMessages_def Let_def
      onmessage_def parseResponse_def handleResponse_def)

text \<open>
  C4, as the code has it. A call made on an open queue is pending, with its closure stored,
  until a frame carries a Response with its id or another closure is stored under the id.
  A Response with the id and a \<^verbatim>\<open>result\<close> property then settles the call: it resolves
  the promise with exactly that result, whatever it is (the empty string, 0, \<^verbatim>\<open>false\<close> and
  \<^verbatim>\<open>null\<close> included), unless the Response also has a truthy \<^verbatim>\<open>error\<close>, which rejects it;
  the entry is removed and the rest of the frame is handled after it. This holds wherever the
  Response stands in its frame, provided the frame is read at all (the elements before and
  after it pass \<^verbatim>\<open>parseResponse\<close>) and no Response before it in the frame throws or has the
  same id; a single object is the frame of one element. A Response with neither a \<^verbatim>\<open>result\<close>
  property nor a truthy \<^verbatim>\<open>error\<close> is left out of the frame, so the call stays pending.
\<close>

theorem call_resolves_with_any_result:
  assumes "outgoing c \<noteq> None"
    and "\<forall>a \<in> set as. \<not> registers key a \<and> \<not> answers key a"
    and "s = fst (run options as (fst (call isOpen key m ps c)))"
  shows "listeners s key = Some (CallCb False)
    \<and> (collect xs [] = Some pre \<and> collect ys [] = Some post
        \<and> (\<forall>p \<in> set pre. \<not> throws options p \<and> res_id p \<noteq> JStr key)
        \<and> map_of kvs ''hasOwnProperty'' = None \<and> map_of kvs ''id'' = Some (JStr key)
        \<and> map_of kvs ''result'' = Some r \<and> r \<noteq> JUndefined
       \<longrightarrow> onmessage options (Text (Some (JArr (xs @ JObj kvs # ys)))) s =
             (case forEach_response options pre s of
                (c1, es1) \<Rightarrow>
                  (case forEach_response options post (c1\<lparr>listeners := (listeners c1)(key := None)\<rparr>) of
                     (c2, es2) \<Rightarrow>
                       (c2, es1
                            @ [if truthy (get_prop (JObj kvs) ''error'')
                               then Rejected key (Value (get_prop (JObj kvs) ''error''))
                               else Resolved key r]
                            @ es2))))
    \<and> onmessage options (Text (Some (JObj kvs))) s = onmessage options (Text (Some (JArr [JObj kvs]))) s
    \<and> (map_of kvs' ''hasOwnProperty'' = None \<and> map_of kvs' ''result'' = None
        \<and> \<not> truthy (get_prop (JObj kvs') ''error'')
       \<longrightarrow> onmessage options (Text (Some (JArr (xs @ JObj kvs' # ys)))) s
               = onmessage options (Text (Some (JArr (xs @ ys)))) s
           \<and> onmessage options (Text (Some (JObj kvs'))) s = (s, []))"
proof -
  have "listeners s key = listeners (fst (call isOpen key m ps c)) key"
    unfolding assms(3) using assms(2) by (rule run_keeps_entry)
  then have s: "listeners s key = Some (CallCb False)"
    using assms(1) by (simp add: call_listeners)
  have batch: "onmessage options (Text (Some (JArr (xs @ JObj kvs # ys)))) s =
             (case forEach_response options pre s of
                (c1, es1) \<Rightarrow>
                  (case forEach_response options post (c1\<lparr>listeners := (listeners c1)(key := None)\<rparr>) of
                     (c2, es2) \<Rightarrow>
                       (c2, es1
                            @ [if truthy (get_prop (JObj kvs) ''error'')
                               then Rejected key (Value (get_prop (JObj kvs) ''error''))
                               else Resolved key r]
                            @ es2)))"
    if h: "collect xs [] = Some pre" "collect ys [] = Some post"
      "\<forall>p \<in> set pre. \<not> throws options p \<and> res_id p \<noteq> JStr key"
      "map_of kvs ''hasOwnProperty'' = None" "map_of kvs ''id'' = Some (JStr key)"
      "map_of kvs ''result'' = Some r" "r \<noteq> JUndefined"
  proof -
    have k: "listeners (fst (forEach_response options pre s)) key = Some (CallCb False)"
      using forEach_response_other_keys [of pre key options s] h(3) s by simp
    have g: "get_prop (JObj kvs) ''result'' = r" using h(6) by simp
    have t: "\<forall>p \<in> set pre. \<not> throws options p" using h(3) by simp
    have acc: "map_of kvs ''result'' \<noteq> None \<or> truthy (get_prop (JObj kvs) ''error'')"
      using h(6) by simp
    show ?thesis
      using onmessage_batch [OF h(1,2,4,5) acc t, unfolded g, OF call_settles [OF k h(7)]]
      by (simp split: prod.splits)
  qed
  have skip: "onmessage options (Text (Some (JArr (xs @ JObj kvs' # ys)))) s
               = onmessage options (Text (Some (JArr (xs @ ys)))) s
           \<and> onmessage options (Text (Some (JObj kvs'))) s = (s, [])"
    if h: "map_of kvs' ''hasOwnProperty'' = None" "map_of kvs' ''result'' = None"
      "\<not> truthy (get_prop (JObj kvs') ''error'')"
  proof -
    have "onmessage options (Text (Some (JObj kvs'))) s = (s, [])"
      using h by (simp add: onmessage_def parseResponse_def)
    then show ?thesis
      by (simp add: onmessage_def parse_batch_skip [OF h])
  qed
  show ?thesis
    using s batch skip by (simp add: onmessage_bare)
qed

theorem call_resolves_with_any_result_witness:
  "onmessage \<lparr>options_onGeneralError = False, options_retryCount = None, options_retryInterval = None\<rparr>
     (Text (Some (JArr [JObj [(''id'', JStr ''other''), (''result'', JNum 7), (''jsonrpc'', JStr ''2.0'')],
                        JObj [(''id'', JStr ''call1''), (''result'', JNum 0), (''jsonrpc'', JStr ''2.0'')],
                        JObj [(''id'', JStr ''call1''), (''result'', JNum 5), (''jsonrpc'', JStr ''2.0'')]])))
     \<lparr>listeners = [''call1'' \<mapsto> CallCb False], outgoing = Some [], retryCount = 0\<rparr>
   = (\<lparr>listeners = Map.empty, outgoing = Some [], retryCount = 0\<rparr>, [Resolved ''call1'' (JNum 0)])
   \<and> onmessage \<lparr>options_onGeneralError = False, options_retryCount = None, options_retryInterval = None\<rparr>
     (Text (Some (JObj [(''id'', JStr ''call1''), (''jsonrpc'', JStr ''2.0'')])))
     \<lparr>listeners = [''call1'' \<mapsto> CallCb False], outgoing = Some [], retryCount = 0\<rparr>
   = (\<lparr>listeners = [''call1'' \<mapsto> CallCb False], outgoing = Some [], retryCount = 0\<rparr>, [])"
proof -
  let ?opts = "\<lparr>options_onGeneralError = False, options_retryCount = None, options_retryInterval = None\<rparr>"
  let ?c = "\<lparr>listeners = Map.empty, outgoing = Some [], retryCount = 0\<rparr>"
  let ?s = "\<lparr>listeners = [''call1'' \<mapsto> CallCb False], outgoing = Some [], retryCount = 0\<rparr>"
  let ?as = "[Notify True ''ping'' JNull,
              OnMessage (Text (Some (JObj [(''id'', JStr ''other''), (''result'', JNum 1)])))]"
  have a: "outgoing ?c \<noteq> None" by simp
  have b: "\<forall>a \<in> set ?as. \<not> registers ''call1'' a \<and> \<not> answers ''call1'' a"
    by (simp add: parseResponse_def)
  have c: "?s = fst (run ?opts ?as (fst (call True ''call1'' ''hello'' JNull ?c)))"
    by (simp add: call_def sendMessage_def newOutgoingMessageNotifier_def sendAllMessages_def Let_def
        onmessage_def parseResponse_def handleResponse_def notify_def)
  show ?thesis
    using call_resolves_with_any_result [OF a b c,
        where xs = "[JObj [(''id'', JStr ''other''), (''result'', JNum 7), (''jsonrpc'', JStr ''2.0'')]]"
          and pre = "[\<lparr>res_id = JStr ''other'', res_result = JNum 7, res_error = JUndefined\<rparr>]"
          and kvs = "[(''id'', JStr ''call1''), (''result'', JNum 0), (''jsonrpc'', JStr ''2.0'')]"
          and r = "JNum 0"
          and ys = "[JObj [(''id'', JStr ''call1''), (''result'', JNum 5), (''jsonrpc'', JStr ''2.0'')]]"
          and post = "[\<lparr>res_id = JStr ''call1'', res_result = JNum 5, res_error = JUndefined\<rparr>]"
          and kvs' = "[(''id'', JStr ''call1''), (''jsonrpc'', JStr ''2.0'')]"]
    by (simp add: throws_def handleResponse_def)
qed

text \<open>
  The frame the server sends for a batch of an invalid element and a call: with no
  \<^verbatim>\<open>onGeneralError\<close> the untargeted error is thrown, and the Response after it, whose result
  is 0, does not settle the call, which stays pending.
\<close>

theorem call_unresolved_after_untargeted_error:
  "onmessage \<lparr>options_onGeneralError = False, options_retryCount = None, options_retryInterval = None\<rparr>
     (Text (Some (JArr [JObj [(''id'', JNull),
                              (''error'', JObj [(''code'', JNum (- 32600)), (''message'', JStr ''Invalid Request'')]),
                              (''jsonrpc'', JStr ''2.0'')],
                        JObj [(''id'', JStr ''call1''), (''result'', JNum 0), (''jsonrpc'', JStr ''2.0'')]])))
     (fst (call True ''call1'' ''hello'' JNull \<lparr>listeners = Map.empty, outgoing = Some [], retryCount = 0\<rparr>))
   = (\<lparr>listeners = [''call1'' \<mapsto> CallCb False], outgoing = Some [], retryCount = 0\<rparr>,
      [Throw (Value (JObj [(''code'', JNum (- 32600)), (''message'', JStr ''Invalid Request'')]))])"
  by (simp add: call_def sendMessage_def newOutgoingMessageNotifier_def sendAllMessages_def Let_def
      onmessage_def parseResponse_def handleResponse_def)

text \<open>
  Two more frames that do not settle a pending call: one with a \<^verbatim>\<open>null\<close> element is dropped
  whole, and a Response for a call made after \<^verbatim>\<open>close()\<close> finds the promise rejected already.
\<close>

lemma frame_with_null_is_dropped:
  "onmessage options (Text (Some (JArr (xs @ JNull # ys)))) c = (c, [])"
proof -
  have "collect (xs @ JNull # ys) [] = None"
    by (simp add: collect_append split: option.splits)
  then show ?thesis by (simp add: onmessage_def parseResponse_def)
qed

lemma response_after_closed_call:
  "run \<lparr>options_onGeneralError = False, options_retryCount = None, options_retryInterval = None\<rparr>
     [Close True, Call True ''call1'' ''hello'' JNull,
      OnMessage (Text (Some (JObj [(''id'', JStr ''call1''), (''result'', JNum 1)])))]
     \<lparr>listeners = Map.empty, outgoing = Some [], retryCount = 0\<rparr>
   = (\<lparr>listeners = Map.empty, outgoing = None, retryCount = 0\<rparr>,
      [WsClose, Rejected ''call1'' closed_error])"
  by (simp add: close_def call_def sendMessage_def newOutgoingMessageNotifier_def sendAllMessages_def
      Let_def onmessage_def parseResponse_def handleResponse_def invoke_def)

lemma sendAllMessages_closed: "outgoing c = None \<Longrightarrow> sendAllMessages c = (c, [WsClose])"
  by (simp add: sendAllMessages_def)

lemma step_stays_closed:
  assumes "outgoing c = None"
  shows "outgoing (fst (step options a c)) = None"
proof (cases a)
  case (OnMessage d)
  have keep: "outgoing (fst (fst (handleResponse options res s))) = outgoing s" for res s
    by (auto simp: handleResponse_def invoke_def split: jsval.splits option.splits callback.splits)
  have "outgoing (fst (forEach_response options rs s)) = outgoing s" for rs s
  proof (induction rs arbitrary: s)
    case Nil
    then show ?case by simp
  next
    case (Cons res rs)
    obtain s' es t where h: "handleResponse options res s = ((s', es), t)"
      by (metis surj_pair)
    then have "outgoing s' = outgoing s" using keep [of res s] by simp
    then show ?case using h Cons.IH [of s'] by (cases t) (auto split: prod.splits)
  qed
  then show ?thesis using OnMessage assms by (simp add: onmessage_def split: option.splits)
qed (use assms in \<open>simp_all add: call_def notify_def listen_def close_def onopen_def onerror_def
      retry_timer_def sendMessage_def newOutgoingMessageNotifier_def sendAllMessages_closed Let_def\<close>)

lemma run_stays_closed:
  assumes "outgoing c = None"
  shows "outgoing (fst (run options as c)) = None"
  using assms
proof (induction as arbitrary: c)
  case Nil
  then show ?case by simp
next
  case (Cons a as)
  have "outgoing (fst (run options as (fst (step options a c)))) = None"
    using Cons.IH step_stays_closed [OF Cons.prems] by simp
  then show ?case by (auto split: prod.splits)
qed

lemma after_close_closed: "outgoing (after_close options isOpen as c) = None"
proof -
  have "outgoing (fst (close isOpen c)) = None"
    by (simp add: close_def newOutgoingMessageNotifier_def sendAllMessages_def)
  then show ?thesis unfolding after_close_def by (rule run_stays_closed)
qed

text \<open>
  C5. Once \<^verbatim>\<open>close()\<close> has run, whatever happens afterwards, the queue stays closed:
  \<^verbatim>\<open>notify\<close> throws and \<^verbatim>\<open>call\<close> rejects with the error "Cannot send message because the
  socket has been manually closed", neither queues nor sends anything, and a retry timer
  that fires does not connect again.
\<close>

theorem closed_client_fails_fast:
  "outgoing (after_close options isOpen as c) = None
   \<and> notify b m ps (after_close options isOpen as c) = (after_close options isOpen as c, [Throw closed_error])
   \<and> call b ident m ps (after_close options isOpen as c)
       = ((after_close options isOpen as c)
            \<lparr>listeners := (listeners (after_close options isOpen as c))(ident \<mapsto> CallCb True)\<rparr>,
          [Rejected ident closed_error])
   \<and> retry_timer (after_close options isOpen as c) = (after_close options isOpen as c, [])
   \<and> closed_error = Error ''Cannot send message because the socket has been manually closed''"
  using after_close_closed [of options isOpen as c]
  by (simp add: notify_def call_def sendMessage_def retry_timer_def closed_error_def Let_def)

lemma onerror_unbounded:
  assumes "options_retryCount options = Some 0"
  shows "onerror options c = (c\<lparr>retryCount := retryCount c + 1\<rparr>, [SetTimeout (retry_delay options)])"
  using assms by (simp add: onerror_def retries_exhausted_def retry_limit_def)

lemma retry_rounds:
  assumes "options_retryCount options = Some 0" and "outgoing c \<noteq> None"
  shows "run options (concat (replicate n [OnError, RetryTimer])) c
           = (c\<lparr>retryCount := retryCount c + n\<rparr>,
              concat (replicate n [SetTimeout (retry_delay options), NewWebSocket]))"
  using assms(2)
proof (induction n arbitrary: c)
  case 0
  then show ?case by simp
next
  case (Suc n)
  have "outgoing (c\<lparr>retryCount := retryCount c + 1\<rparr>) \<noteq> None" using Suc.prems by simp
  from Suc.IH [OF this] show ?case
    using Suc.prems by (simp add: onerror_unbounded [OF assms(1)] retry_timer_def tryToConnect_def)
qed

text \<open>
  C10. With \<^verbatim>\<open>retryCount: 0\<close> the limit is \<^verbatim>\<open>Infinity\<close>: no count of failures exhausts it, every
  connection error schedules another retry, and any number of failures in a row, each followed
  by its timer, gives that many new connection attempts and neither a general error nor an
  exception.
\<close>

theorem retryCount_zero_is_unbounded:
  assumes "options_retryCount options = Some 0"
  shows "retry_limit options = None
    \<and> \<not> retries_exhausted options c
    \<and> onerror options c = (c\<lparr>retryCount := retryCount c + 1\<rparr>, [SetTimeout (retry_delay options)])
    \<and> (outgoing c \<noteq> None \<longrightarrow>
         run options (concat (replicate n [OnError, RetryTimer])) c
           = (c\<lparr>retryCount := retryCount c + n\<rparr>,
              concat (replicate n [SetTimeout (retry_delay options), NewWebSocket])))"
  using assms onerror_unbounded [OF assms] retry_rounds [OF assms]
  by (simp add: retries_exhausted_def retry_limit_def)

theorem retryCount_zero_is_unbounded_witness:
  "retry_limit \<lparr>options_onGeneralError = False, options_retryCount = Some 0, options_retryInterval = None\<rparr> = None
   \<and> run \<lparr>options_onGeneralError = False, options_retryCount = Some 0, options_retryInterval = None\<rparr>
       (concat (replicate 3 [OnError, RetryTimer]))
       \<lparr>listeners = Map.empty, outgoing = Some [], retryCount = 0\<rparr>
     = (\<lparr>listeners = Map.empty, outgoing = Some [], retryCount = 3\<rparr>,
        [SetTimeout 2000, NewWebSocket, SetTimeout 2000, NewWebSocket, SetTimeout 2000, NewWebSocket])"
proof -
  have three: "concat (replicate 3 [SetTimeout 2000, NewWebSocket])
      = [SetTimeout 2000, NewWebSocket, SetTimeout 2000, NewWebSocket, SetTimeout 2000, NewWebSocket]"
    by (simp add: numeral_3_eq_3)
  show ?thesis
    using retryCount_zero_is_unbounded
      [of "\<lparr>options_onGeneralError = False, options_retryCount = Some 0, options_retryInterval = None\<rparr>"
          "\<lparr>listeners = Map.empty, outgoing = Some [], retryCount = 0\<rparr>" 3]
    by (simp add: retry_delay_def three)
qed

text \<open>By contrast a limit of 1 is reached by the second failure, which throws when no handler is set.\<close>

lemma retryCount_one_is_exhausted:
  "run \<lparr>options_onGeneralError = False, options_retryCount = Some 1, options_retryInterval = None\<rparr>
     [OnError, RetryTimer, OnError]
     \<lparr>listeners = Map.empty, outgoing = Some [], retryCount = 0\<rparr>
   = (\<lparr>listeners = Map.empty, outgoing = Some [], retryCount = 1\<rparr>,
      [SetTimeout 2000, NewWebSocket, Throw (Value failed_to_connect)])"
  by (simp add: onerror_def retries_exhausted_def retry_limit_def retry_delay_def retry_timer_def
      tryToConnect_def)

end
